theory Spec2Isabelle
  imports
    Complex_Main
    "HOL-Library.Sublist"
    "HOL-Library.Multiset"
    "HOL-Library.Log_Nat"
    "HOL-Library.AList"
    "HOL-Library.Char_ord"
    "HOL-Library.List_Lexorder"
begin

section \<open>Grocery service: a shallow embedding of \<^verbatim>\<open>services/groceryService.js\<close>\<close>

text \<open>
  The service turns recipe records into a consolidated shopping list. Every method of
  the class \<^verbatim>\<open>GroceryService\<close> that the properties below talk about is embedded as a
  HOL function of the same name. Conventions:
  \<^item> a JavaScript string is a \<^typ>\<open>string\<close>, one \<^typ>\<open>char\<close> for each code unit: the strings
    covered are those over the code units below 256 (Basic Latin and Latin-1 Supplement);
  \<^item> the comparator \<^verbatim>\<open>String.prototype.localeCompare\<close> is code of the runtime, not of the
    service, and is a parameter of \<open>generateGroceryList\<close>;
  \<^item> a plain object used as a dictionary is an association list in insertion order, and a
    property read \<^verbatim>\<open>obj[key]\<close> that misses the own properties falls through to
    \<^verbatim>\<open>Object.prototype\<close>, as it does in JavaScript;
  \<^item> a JavaScript number is a \<^verbatim>\<open>jsnum\<close>: a finite binary64 value (kept as the rational it
    denotes), an infinity or NaN; products and quotients are rounded to binary64;
  \<^item> an exception is a value \<open>Inl e\<close> of the result type.
\<close>

subsection \<open>Strings\<close>

text \<open>
  \<^verbatim>\<open>String.prototype.toLowerCase\<close> on these code units: the letters \<^verbatim>\<open>A\<close>..\<^verbatim>\<open>Z\<close> (65..90) and
  the capital letters of the Latin-1 Supplement (192..222, without the multiplication
  sign 215) move up by 32 to their small forms, every other code unit stays.
\<close>

definition toLowerChar :: "char \<Rightarrow> char" where
  "toLowerChar c =
     (let n = (of_char c :: nat)
      in if (65 \<le> n \<and> n \<le> 90) \<or> (192 \<le> n \<and> n \<le> 222 \<and> n \<noteq> 215) then char_of (n + 32)
         else c)"

definition toLowerCase :: "string \<Rightarrow> string" where
  "toLowerCase s = map toLowerChar s"

text \<open>\<^verbatim>\<open>s.startsWith(t)\<close> and \<^verbatim>\<open>s.includes(t)\<close>: \<open>t\<close> occurs in \<open>s\<close> as a contiguous block.\<close>

fun startsWith :: "string \<Rightarrow> string \<Rightarrow> bool" where
  "startsWith s [] = True"
| "startsWith [] (c # t) = False"
| "startsWith (d # s) (c # t) = (d = c \<and> startsWith s t)"

fun str_includes :: "string \<Rightarrow> string \<Rightarrow> bool" where
  "str_includes [] t = (t = [])"
| "str_includes (d # s) t = (startsWith (d # s) t \<or> str_includes s t)"

subsection \<open>The category table and \<^verbatim>\<open>categorizeIngredient\<close>\<close>

text \<open>
  \<^verbatim>\<open>this.ingredientCategories\<close>, in the order \<^verbatim>\<open>Object.entries\<close> enumerates it (no key is
  an array index, so that is the order of the literal).
\<close>

definition ingredientCategories :: "(string \<times> string list) list" where
  "ingredientCategories =
    [(''produce'', [''tomato'', ''onion'', ''garlic'', ''basil'', ''herbs'', ''bell pepper'',
                    ''lettuce'', ''cucumber'']),
     (''dairy'', [''cheese'', ''butter'', ''milk'', ''cream'', ''yogurt'', ''mozzarella'',
                  ''parmesan'']),
     (''protein'', [''eggs'', ''chicken'', ''beef'', ''fish'', ''tofu'']),
     (''pantry'', [''salt'', ''pepper'', ''olive oil'', ''flour'', ''sugar'', ''pasta'', ''rice'']),
     (''bread'', [''bread'', ''tortilla'', ''buns'', ''rolls'']),
     (''condiments'', [''balsamic vinegar'', ''soy sauce'', ''hot sauce'', ''mustard''])]"

text \<open>The callback of \<^verbatim>\<open>ingredients.some(...)\<close>.\<close>

definition itemMatches :: "string \<Rightarrow> string \<Rightarrow> bool" where
  "itemMatches lowerIngredient item =
     (str_includes lowerIngredient item \<or> str_includes item lowerIngredient)"

text \<open>The \<^verbatim>\<open>for (const [category, ingredients] of ...)\<close> loop with its early return.\<close>

fun categorizeLoop :: "(string \<times> string list) list \<Rightarrow> string \<Rightarrow> string" where
  "categorizeLoop [] lowerIngredient = ''other''"
| "categorizeLoop ((category, items) # rest) lowerIngredient =
     (if list_ex (itemMatches lowerIngredient) items then category
      else categorizeLoop rest lowerIngredient)"

definition categorizeIngredient :: "string \<Rightarrow> string" where
  "categorizeIngredient ingredient =
     categorizeLoop ingredientCategories (toLowerCase ingredient)"

text \<open>
  The categorizer as the specification words it: the first category, in the priority
  order of the table, one of whose keywords is a substring of the name or contains the
  name, both without regard to case; \<^verbatim>\<open>other\<close> when there is none. Substring is
  \<^const>\<open>sublist\<close>, and case is disregarded by lower-casing both sides.
\<close>

definition keywordMatch :: "string \<Rightarrow> string list \<Rightarrow> bool" where
  "keywordMatch ingredient keywords =
     (\<exists>k \<in> set keywords.
        sublist (toLowerCase k) (toLowerCase ingredient)
        \<or> sublist (toLowerCase ingredient) (toLowerCase k))"

definition categorize_spec :: "string \<Rightarrow> string" where
  "categorize_spec ingredient =
     (case find (\<lambda>(category, keywords). keywordMatch ingredient keywords) ingredientCategories of
        None \<Rightarrow> ''other''
      | Some (category, keywords) \<Rightarrow> category)"

subsection \<open>JavaScript numbers\<close>

text \<open>
  A number is a finite binary64 value, an infinity or NaN. A finite value is kept as the
  rational number it denotes (the sign of zero is not kept: nothing here divides by a
  computed zero).
\<close>

datatype jsnum = Fin rat | PosInf | NegInf | NaN

text \<open>\<open>ilog2 x\<close> is \<open>\<lfloor>log\<^sub>2 x\<rfloor>\<close> for a positive rational \<open>x\<close>.\<close>

definition ilog2 :: "rat \<Rightarrow> int" where
  "ilog2 x =
     (let (p, q) = quotient_of x; e = bitlen p - bitlen q
      in if power_int 2 e \<le> x then e else e - 1)"

definition roundHalfEven :: "rat \<Rightarrow> int" where
  "roundHalfEven y =
     (let f = \<lfloor>y\<rfloor>; d = y - of_int f
      in if d < 1 / 2 then f else if 1 / 2 < d then f + 1 else if even f then f else f + 1)"

text \<open>
  \<open>toDouble x\<close> rounds the exact result \<open>x\<close> of an arithmetic operation to binary64:
  53 significant bits, round to nearest, ties to even, gradual underflow below
  \<open>2\<^sup>-\<^sup>1\<^sup>0\<^sup>2\<^sup>2\<close> and overflow to an infinity from \<open>2\<^sup>1\<^sup>0\<^sup>2\<^sup>4\<close> on.
\<close>

definition toDouble :: "rat \<Rightarrow> jsnum" where
  "toDouble x =
     (if x = 0 then Fin 0
      else
        let a = \<bar>x\<bar>;
            e = max (ilog2 a) (- 1022);
            q = power_int 2 (e - 52);
            r = of_int (roundHalfEven (a / q)) * q
        in if power_int 2 1024 \<le> r then (if 0 < x then PosInf else NegInf)
           else Fin (if 0 < x then r else - r))"

text \<open>The operator \<^verbatim>\<open>*\<close> on numbers.\<close>

fun js_mul :: "jsnum \<Rightarrow> jsnum \<Rightarrow> jsnum" where
  "js_mul (Fin a) (Fin b) = toDouble (a * b)"
| "js_mul NaN y = NaN"
| "js_mul x NaN = NaN"
| "js_mul (Fin a) PosInf = (if a = 0 then NaN else if 0 < a then PosInf else NegInf)"
| "js_mul (Fin a) NegInf = (if a = 0 then NaN else if 0 < a then NegInf else PosInf)"
| "js_mul PosInf (Fin b) = (if b = 0 then NaN else if 0 < b then PosInf else NegInf)"
| "js_mul NegInf (Fin b) = (if b = 0 then NaN else if 0 < b then NegInf else PosInf)"
| "js_mul PosInf PosInf = PosInf"
| "js_mul PosInf NegInf = NegInf"
| "js_mul NegInf PosInf = NegInf"
| "js_mul NegInf NegInf = PosInf"

text \<open>The operator \<^verbatim>\<open>+\<close> on two numbers.\<close>

fun js_add :: "jsnum \<Rightarrow> jsnum \<Rightarrow> jsnum" where
  "js_add (Fin a) (Fin b) = toDouble (a + b)"
| "js_add NaN y = NaN"
| "js_add x NaN = NaN"
| "js_add PosInf NegInf = NaN"
| "js_add NegInf PosInf = NaN"
| "js_add PosInf y = PosInf"
| "js_add NegInf y = NegInf"
| "js_add (Fin a) y = y"

text \<open>
  The operator \<^verbatim>\<open>/\<close>. A zero divisor is the positive zero: the divisors here are a
  literal and a serving count.
\<close>

fun js_div :: "jsnum \<Rightarrow> jsnum \<Rightarrow> jsnum" where
  "js_div (Fin a) (Fin b) =
     (if b = 0 then (if a = 0 then NaN else if 0 < a then PosInf else NegInf)
      else toDouble (a / b))"
| "js_div NaN y = NaN"
| "js_div x NaN = NaN"
| "js_div (Fin a) y = Fin 0"
| "js_div PosInf (Fin b) = (if 0 \<le> b then PosInf else NegInf)"
| "js_div NegInf (Fin b) = (if 0 \<le> b then NegInf else PosInf)"
| "js_div x y = NaN"

text \<open>\<^verbatim>\<open>Math.ceil\<close> and \<^verbatim>\<open>Math.round\<close> (halves go up).\<close>

fun Math_ceil :: "jsnum \<Rightarrow> jsnum" where
  "Math_ceil (Fin x) = Fin (of_int \<lceil>x\<rceil>)"
| "Math_ceil y = y"

fun Math_round :: "jsnum \<Rightarrow> jsnum" where
  "Math_round (Fin x) = Fin (of_int \<lfloor>x + 1 / 2\<rfloor>)"
| "Math_round y = y"

subsection \<open>Plain objects\<close>

text \<open>
  An object literal \<^verbatim>\<open>{}\<close> inherits from \<^verbatim>\<open>Object.prototype\<close>. These are the property
  names found there; each holds a function, except \<^verbatim>\<open>__proto__\<close>, which reads as
  \<^verbatim>\<open>Object.prototype\<close> itself. All of them are truthy and none of them has a property
  called \<^verbatim>\<open>amount\<close>, \<^verbatim>\<open>unit\<close>, \<^verbatim>\<open>notes\<close>, \<^verbatim>\<open>recipes\<close> or \<^verbatim>\<open>push\<close>.
\<close>

definition objectPrototypeKeys :: "string list" where
  "objectPrototypeKeys =
     [''constructor'', ''__defineGetter__'', ''__defineSetter__'', ''hasOwnProperty'',
      ''__lookupGetter__'', ''__lookupSetter__'', ''isPrototypeOf'', ''propertyIsEnumerable'',
      ''toString'', ''valueOf'', ''__proto__'', ''toLocaleString'']"

text \<open>The outcome of the property read \<^verbatim>\<open>obj[key]\<close>.\<close>

datatype 'v property = Own 'v | Inherited | Undefined

definition js_get :: "(string \<times> 'v) list \<Rightarrow> string \<Rightarrow> 'v property" where
  "js_get obj key =
     (case map_of obj key of
        Some v \<Rightarrow> Own v
      | None \<Rightarrow> if key \<in> set objectPrototypeKeys then Inherited else Undefined)"

text \<open>
  The property write \<^verbatim>\<open>obj[key] = v\<close>: an existing own property keeps its place, a new
  one goes to the end.
\<close>

definition js_set :: "(string \<times> 'v) list \<Rightarrow> string \<Rightarrow> 'v \<Rightarrow> (string \<times> 'v) list" where
  "js_set obj key v = AList.update key v obj"

text \<open>
  \<^verbatim>\<open>Object.keys\<close> and \<^verbatim>\<open>Object.entries\<close> enumerate the own properties: first the keys
  that are array indices (canonical decimal numerals below \<open>2\<^sup>3\<^sup>2 - 1\<close>), in ascending
  numeric order, then every other key in insertion order.
\<close>

definition isDigit :: "char \<Rightarrow> bool" where
  "isDigit c = (48 \<le> (of_char c :: nat) \<and> (of_char c :: nat) \<le> 57)"

definition digitsValue :: "string \<Rightarrow> nat" where
  "digitsValue s = foldl (\<lambda>n c. 10 * n + ((of_char c :: nat) - 48)) 0 s"

definition isArrayIndex :: "string \<Rightarrow> bool" where
  "isArrayIndex s =
     (s \<noteq> [] \<and> list_all isDigit s \<and> (length s = 1 \<or> hd s \<noteq> CHR ''0'')
      \<and> digitsValue s < 2 ^ 32 - 1)"

definition Object_entries :: "(string \<times> 'v) list \<Rightarrow> (string \<times> 'v) list" where
  "Object_entries obj =
     sort_key (\<lambda>kv. digitsValue (fst kv)) (filter (\<lambda>kv. isArrayIndex (fst kv)) obj)
     @ filter (\<lambda>kv. \<not> isArrayIndex (fst kv)) obj"

definition Object_keys :: "(string \<times> 'v) list \<Rightarrow> string list" where
  "Object_keys obj = map fst (Object_entries obj)"

subsection \<open>\<^verbatim>\<open>calculateIngredientQuantity\<close>\<close>

record Quantity =
  amount :: jsnum
  q_unit :: "string option"
  q_notes :: "string option"

definition baseQuantities :: "(string \<times> Quantity) list" where
  "baseQuantities =
    [(''eggs'', \<lparr>amount = Fin 6, q_unit = Some ''pieces'', q_notes = Some ''Large eggs''\<rparr>),
     (''tomato'', \<lparr>amount = Fin 2, q_unit = Some ''pieces'', q_notes = Some ''Medium tomatoes''\<rparr>),
     (''cheese'', \<lparr>amount = Fin 200, q_unit = Some ''g'', q_notes = Some ''Block or grated''\<rparr>),
     (''butter'', \<lparr>amount = Fin 100, q_unit = Some ''g'', q_notes = Some ''Unsalted preferred''\<rparr>),
     (''bread'', \<lparr>amount = Fin 1, q_unit = Some ''loaf'', q_notes = Some ''Whole grain or white''\<rparr>),
     (''olive oil'', \<lparr>amount = Fin 250, q_unit = Some ''ml'', q_notes = Some ''Extra virgin''\<rparr>),
     (''onion'', \<lparr>amount = Fin 1, q_unit = Some ''piece'', q_notes = Some ''Medium yellow onion''\<rparr>),
     (''garlic'', \<lparr>amount = Fin 1, q_unit = Some ''head'', q_notes = Some ''Fresh bulb''\<rparr>),
     (''pasta'', \<lparr>amount = Fin 500, q_unit = Some ''g'', q_notes = Some ''Dried pasta''\<rparr>),
     (''salt'', \<lparr>amount = Fin 1, q_unit = Some ''container'',
                q_notes = Some ''Sea salt or table salt''\<rparr>),
     (''pepper'', \<lparr>amount = Fin 1, q_unit = Some ''container'', q_notes = Some ''Freshly ground''\<rparr>)]"

definition defaultQuantity :: Quantity where
  "defaultQuantity =
     \<lparr>amount = Fin 1, q_unit = Some ''item'', q_notes = Some ''Check recipe for specific amount''\<rparr>"

text \<open>
  \<^verbatim>\<open>baseQuantities[ingredient.toLowerCase()] || defaultQuantity\<close>: an own entry and an
  inherited property are both truthy, so the default is taken only when the read gives
  \<^verbatim>\<open>undefined\<close>. An inherited property has no \<^verbatim>\<open>amount\<close>, \<^verbatim>\<open>unit\<close> or \<^verbatim>\<open>notes\<close>: the
  product is \<^verbatim>\<open>undefined * multiplier\<close>, which is NaN, and the other two are \<^verbatim>\<open>undefined\<close>
  (\<open>None\<close>).
\<close>

definition calculateIngredientQuantity :: "string \<Rightarrow> jsnum \<Rightarrow> Quantity" where
  "calculateIngredientQuantity ingredient multiplier =
     (case js_get baseQuantities (toLowerCase ingredient) of
        Own base \<Rightarrow>
          \<lparr>amount = Math_ceil (js_mul (amount base) multiplier),
           q_unit = q_unit base, q_notes = q_notes base\<rparr>
      | Undefined \<Rightarrow>
          \<lparr>amount = Math_ceil (js_mul (amount defaultQuantity) multiplier),
           q_unit = q_unit defaultQuantity, q_notes = q_notes defaultQuantity\<rparr>
      | Inherited \<Rightarrow>
          \<lparr>amount = Math_ceil (js_mul NaN multiplier), q_unit = None, q_notes = None\<rparr>)"

subsection \<open>\<^verbatim>\<open>estimateTotalCost\<close>\<close>

definition averagePrices :: "(string \<times> rat) list" where
  "averagePrices =
    [(''eggs'', 7 / 2), (''tomato'', 2), (''cheese'', 5), (''butter'', 4), (''bread'', 5 / 2),
     (''olive oil'', 6), (''onion'', 3 / 2), (''garlic'', 1), (''pasta'', 3 / 2), (''salt'', 1),
     (''pepper'', 3)]"

text \<open>
  The variable \<^verbatim>\<open>totalCost\<close> holds a number until \<^verbatim>\<open>+=\<close> meets an operand that is not a
  number. That can only be an inherited property (a function or an object): the sum is
  then a string concatenation, beginning with the digits of the total so far followed
  by the text of the function, and it stays a string that is no numeral.
\<close>

datatype cost = Number jsnum | Text

text \<open>\<^verbatim>\<open>totalCost += averagePrices[ingredient.toLowerCase()] || 2.50\<close>. Every price is non-zero.\<close>

definition addPrice :: "cost \<Rightarrow> string \<Rightarrow> cost" where
  "addPrice totalCost ingredient =
     (case js_get averagePrices (toLowerCase ingredient) of
        Inherited \<Rightarrow> Text
      | Own price \<Rightarrow> (case totalCost of Number t \<Rightarrow> Number (js_add t (Fin price)) | Text \<Rightarrow> Text)
      | Undefined \<Rightarrow> (case totalCost of Number t \<Rightarrow> Number (js_add t (Fin (5 / 2))) | Text \<Rightarrow> Text))"

text \<open>
  \<^verbatim>\<open>Math.round(totalCost * 100) / 100\<close>; a string that is no numeral converts to NaN.
\<close>

definition roundCost :: "cost \<Rightarrow> jsnum" where
  "roundCost totalCost =
     (case totalCost of
        Number t \<Rightarrow> js_div (Math_round (js_mul t (Fin 100))) (Fin 100)
      | Text \<Rightarrow> js_div (Math_round NaN) (Fin 100))"

definition estimateTotalCost :: "(string \<times> 'v) list \<Rightarrow> jsnum" where
  "estimateTotalCost ingredients = roundCost (foldl addPrice (Number (Fin 0)) (Object_keys ingredients))"

subsection \<open>Recipes and the recipe lookup\<close>

record Recipe =
  recipe_id :: int
  recipe_name :: string
  recipe_servings :: nat
  recipe_cookingTime :: nat
  recipe_ingredients :: "string list"

text \<open>
  \<open>RecipeNotFound id\<close> is the \<^verbatim>\<open>AppError\<close> with status 404 and the message
  \<^verbatim>\<open>Recipe with ID <id> not found\<close>; \<open>TypeError\<close> is the built-in exception of a property
  read on \<^verbatim>\<open>undefined\<close>.
\<close>

datatype error = RecipeNotFound int | TypeError

text \<open>
  \<^verbatim>\<open>RecipeService.getRecipeById\<close>. The request to the language model and the parsing of
  its answer are the parameter \<open>model\<close>: \<open>None\<close> when either of them throws. Whatever was
  thrown, the \<^verbatim>\<open>catch\<close> block replaces it by the 404 error. The answer is taken to depend on
  the identifier only.
\<close>

definition getRecipeById :: "(int \<Rightarrow> Recipe option) \<Rightarrow> int \<Rightarrow> error + Recipe" where
  "getRecipeById model recipeId =
     (case model recipeId of
        Some recipe \<Rightarrow> Inr recipe
      | None \<Rightarrow> Inl (RecipeNotFound recipeId))"

subsection \<open>The grocery list\<close>

record RecipeRef =
  recipeId :: int
  recipeName :: string

record RecipeInfo =
  info_id :: int
  info_name :: string
  info_servings :: nat
  info_cookingTime :: nat

record IngredientEntry =
  name :: string
  quantity :: jsnum
  unit :: "string option"
  category :: string
  recipes :: "RecipeRef list"
  notes' :: "string option"

record Summary =
  totalRecipes :: nat
  totalIngredients :: nat
  estimatedCost :: jsnum
  estimatedTime :: jsnum

record GroceryList =
  list_recipes :: "RecipeInfo list"
  ingredients :: "(string \<times> IngredientEntry) list"
  categorizedIngredients :: "(string \<times> IngredientEntry list) list"
  summary :: Summary

text \<open>The parameter \<^verbatim>\<open>options\<close>, with its defaults \<^verbatim>\<open>servings = null\<close> and \<^verbatim>\<open>excludeIngredients = []\<close>.\<close>

record Options =
  servings :: "nat option"
  excludeIngredients :: "string list"

text \<open>\<^verbatim>\<open>servings ? servings / recipe.servings : 1\<close>; zero is falsy, like \<^verbatim>\<open>null\<close>.\<close>

definition servingMultiplier :: "Options \<Rightarrow> Recipe \<Rightarrow> jsnum" where
  "servingMultiplier options recipe =
     (case servings options of
        Some s \<Rightarrow>
          if s \<noteq> 0 then js_div (Fin (of_nat s)) (Fin (of_nat (recipe_servings recipe))) else Fin 1
      | None \<Rightarrow> Fin 1)"

text \<open>
  The body of the loop over \<^verbatim>\<open>recipe.ingredients\<close>, on the object
  \<^verbatim>\<open>groceryList.ingredients\<close>. When the name is an inherited property name the test
  \<^verbatim>\<open>!groceryList.ingredients[ingredient]\<close> is false, no entry is made, and
  \<^verbatim>\<open>.recipes.push\<close> is a property read on \<^verbatim>\<open>undefined\<close>.
\<close>

definition addIngredient ::
  "Options \<Rightarrow> Recipe \<Rightarrow> (string \<times> IngredientEntry) list \<Rightarrow> string
     \<Rightarrow> error + (string \<times> IngredientEntry) list" where
  "addIngredient options recipe ings ingredient =
     (if toLowerCase ingredient \<in> set (excludeIngredients options) then Inr ings
      else
        let q = calculateIngredientQuantity ingredient (servingMultiplier options recipe);
            ings1 =
              (case js_get ings ingredient of
                 Undefined \<Rightarrow>
                   js_set ings ingredient
                     \<lparr>name = ingredient, quantity = amount q, unit = q_unit q,
                      category = categorizeIngredient ingredient, recipes = [],
                      notes' = q_notes q\<rparr>
               | _ \<Rightarrow> ings)
        in case js_get ings1 ingredient of
             Own entry \<Rightarrow>
               Inr (js_set ings1 ingredient
                      (entry\<lparr>recipes := recipes entry
                          @ [\<lparr>recipeId = recipe_id recipe, recipeName = recipe_name recipe\<rparr>]\<rparr>))
           | _ \<Rightarrow> Inl TypeError)"

fun addIngredients ::
  "Options \<Rightarrow> Recipe \<Rightarrow> (string \<times> IngredientEntry) list \<Rightarrow> string list
     \<Rightarrow> error + (string \<times> IngredientEntry) list" where
  "addIngredients options recipe ings [] = Inr ings"
| "addIngredients options recipe ings (ingredient # rest) =
     (case addIngredient options recipe ings ingredient of
        Inl e \<Rightarrow> Inl e
      | Inr ings' \<Rightarrow> addIngredients options recipe ings' rest)"

text \<open>The loop over \<^verbatim>\<open>recipeIds\<close>; an exception leaves it at once.\<close>

fun processRecipes ::
  "(int \<Rightarrow> Recipe option) \<Rightarrow> Options \<Rightarrow> GroceryList \<Rightarrow> int list \<Rightarrow> error + GroceryList" where
  "processRecipes model options groceryList [] = Inr groceryList"
| "processRecipes model options groceryList (rid # rest) =
     (case getRecipeById model rid of
        Inl e \<Rightarrow> Inl e
      | Inr recipe \<Rightarrow>
          let info =
                \<lparr>info_id = recipe_id recipe, info_name = recipe_name recipe,
                 info_servings =
                   (case servings options of
                      Some s \<Rightarrow> if s \<noteq> 0 then s else recipe_servings recipe
                    | None \<Rightarrow> recipe_servings recipe),
                 info_cookingTime = recipe_cookingTime recipe\<rparr>
          in case addIngredients options recipe (ingredients groceryList)
                    (recipe_ingredients recipe) of
               Inl e \<Rightarrow> Inl e
             | Inr ings \<Rightarrow>
                 processRecipes model options
                   (groceryList
                      \<lparr>list_recipes := list_recipes groceryList @ [info],
                       ingredients := ings,
                       summary := (summary groceryList)
                         \<lparr>estimatedTime :=
                            js_add (estimatedTime (summary groceryList))
                              (Fin (of_nat (recipe_cookingTime recipe)))\<rparr>\<rparr>)
                   rest)"

text \<open>
  The loop that fills \<^verbatim>\<open>groceryList.categorizedIngredients\<close>. A bucket is an array, so
  \<^verbatim>\<open>push\<close> on anything else is a \<^verbatim>\<open>TypeError\<close>.
\<close>

definition addToCategory ::
  "(string \<times> IngredientEntry list) list \<Rightarrow> IngredientEntry
     \<Rightarrow> error + (string \<times> IngredientEntry list) list" where
  "addToCategory cats ingredientData =
     (let c = category ingredientData;
          cats1 = (case js_get cats c of Undefined \<Rightarrow> js_set cats c [] | _ \<Rightarrow> cats)
      in case js_get cats1 c of
           Own bucket \<Rightarrow> Inr (js_set cats1 c (bucket @ [ingredientData]))
         | _ \<Rightarrow> Inl TypeError)"

fun organize ::
  "(string \<times> IngredientEntry list) list \<Rightarrow> IngredientEntry list
     \<Rightarrow> error + (string \<times> IngredientEntry list) list" where
  "organize cats [] = Inr cats"
| "organize cats (e # es) =
     (case addToCategory cats e of Inl err \<Rightarrow> Inl err | Inr cats' \<Rightarrow> organize cats' es)"

text \<open>
  \<^verbatim>\<open>Array.prototype.sort\<close> with the comparator
  \<^verbatim>\<open>(a, b) => a.name.localeCompare(b.name)\<close>. The sort is stable; it is written here as
  insertion from the left, each element going behind the elements that do not compare
  greater. \<^verbatim>\<open>String.prototype.localeCompare\<close> belongs to the runtime and its collation
  data, so it is the parameter \<open>localeCompare\<close>.
\<close>

fun insertEntry ::
  "(string \<Rightarrow> string \<Rightarrow> int) \<Rightarrow> IngredientEntry \<Rightarrow> IngredientEntry list \<Rightarrow> IngredientEntry list"
  where
  "insertEntry localeCompare x [] = [x]"
| "insertEntry localeCompare x (y # ys) =
     (if localeCompare (name x) (name y) < 0 then x # y # ys
      else y # insertEntry localeCompare x ys)"

definition Array_sort ::
  "(string \<Rightarrow> string \<Rightarrow> int) \<Rightarrow> IngredientEntry list \<Rightarrow> IngredientEntry list" where
  "Array_sort localeCompare xs = foldl (\<lambda>acc x. insertEntry localeCompare x acc) [] xs"

definition emptyGroceryList :: "int list \<Rightarrow> GroceryList" where
  "emptyGroceryList recipeIds =
     \<lparr>list_recipes = [], ingredients = [], categorizedIngredients = [],
      summary = \<lparr>totalRecipes = length recipeIds, totalIngredients = 0,
                 estimatedCost = Fin 0, estimatedTime = Fin 0\<rparr>\<rparr>"

text \<open>
  \<^verbatim>\<open>generateGroceryList(recipeIds, options)\<close>, for \<^verbatim>\<open>recipeIds\<close> an array (anything else
  is wrapped into a one-element array first).
\<close>

definition generateGroceryList ::
  "(int \<Rightarrow> Recipe option) \<Rightarrow> (string \<Rightarrow> string \<Rightarrow> int) \<Rightarrow> int list \<Rightarrow> Options
     \<Rightarrow> error + GroceryList" where
  "generateGroceryList model localeCompare recipeIds options =
     (case processRecipes model options (emptyGroceryList recipeIds) recipeIds of
        Inl e \<Rightarrow> Inl e
      | Inr gl \<Rightarrow>
          (case organize [] (map snd (Object_entries (ingredients gl))) of
             Inl e \<Rightarrow> Inl e
           | Inr cats \<Rightarrow>
               Inr (gl\<lparr>categorizedIngredients :=
                         map (\<lambda>(c, bucket). (c, Array_sort localeCompare bucket)) cats,
                       summary := (summary gl)
                         \<lparr>totalIngredients := length (Object_keys (ingredients gl)),
                          estimatedCost := estimateTotalCost (ingredients gl)\<rparr>\<rparr>)))"

subsection \<open>Notions used to state the properties\<close>

text \<open>The element pushed to \<^verbatim>\<open>recipes\<close> for a recipe.\<close>

definition refOf :: "Recipe \<Rightarrow> RecipeRef" where
  "refOf recipe = \<lparr>recipeId = recipe_id recipe, recipeName = recipe_name recipe\<rparr>"

text \<open>The ingredients of a recipe that the exclusion list lets through, in their order.\<close>

definition keptOf :: "Options \<Rightarrow> string list \<Rightarrow> string list" where
  "keptOf options is = filter (\<lambda>i. toLowerCase i \<notin> set (excludeIngredients options)) is"

definition kept :: "Options \<Rightarrow> Recipe \<Rightarrow> string list" where
  "kept options recipe = keptOf options (recipe_ingredients recipe)"

text \<open>
  Every listing of an ingredient by a recipe, in processing order: recipe by recipe, and
  within a recipe in the order of its ingredient list.
\<close>

definition contributions :: "Options \<Rightarrow> Recipe list \<Rightarrow> (string \<times> Recipe) list" where
  "contributions options rs = concat (map (\<lambda>r. map (\<lambda>i. (i, r)) (kept options r)) rs)"

text \<open>The listings of one ingredient name.\<close>

definition listings :: "string \<Rightarrow> (string \<times> Recipe) list \<Rightarrow> Recipe list" where
  "listings k cs = map snd (filter (\<lambda>c. fst c = k) cs)"

text \<open>
  The entry expected under the key \<open>k\<close> after the listings \<open>cs\<close>: quantity, unit and notes
  as computed for the first recipe that lists \<open>k\<close>, and one reference per listing.
\<close>

definition entryFor :: "Options \<Rightarrow> (string \<times> Recipe) list \<Rightarrow> string \<Rightarrow> IngredientEntry" where
  "entryFor options cs k =
     (let q = calculateIngredientQuantity k (servingMultiplier options (hd (listings k cs)))
      in \<lparr>name = k, quantity = amount q, unit = q_unit q,
          category = categorizeIngredient k, recipes = map refOf (listings k cs),
          notes' = q_notes q\<rparr>)"

text \<open>The entry of a result under a key, if the call succeeded and the key is there.\<close>

definition entryOf :: "error + GroceryList \<Rightarrow> string \<Rightarrow> IngredientEntry option" where
  "entryOf result k = (case result of Inl e \<Rightarrow> None | Inr g \<Rightarrow> map_of (ingredients g) k)"

text \<open>The buckets of a result, each with the names of its entries in their order.\<close>

definition bucketNames :: "error + GroceryList \<Rightarrow> (string \<times> string list) list option" where
  "bucketNames result =
     (case result of
        Inl e \<Rightarrow> None
      | Inr g \<Rightarrow> Some (map (\<lambda>(c, bucket). (c, map name bucket)) (categorizedIngredients g)))"

text \<open>
  The base entry of a name as the specification describes the lookup: the table entry of
  the lower-cased name, the default when there is none.
\<close>

definition baseFor :: "string \<Rightarrow> Quantity" where
  "baseFor ingredient =
     (case map_of baseQuantities (toLowerCase ingredient) of
        Some base \<Rightarrow> base
      | None \<Rightarrow> defaultQuantity)"

definition baseAmount :: "string \<Rightarrow> rat" where
  "baseAmount ingredient = (case amount (baseFor ingredient) of Fin a \<Rightarrow> a | _ \<Rightarrow> 0)"

text \<open>
  The price of a name as the specification describes the lookup: the table price of the
  lower-cased name, 2.50 when there is none.
\<close>

definition priceOf :: "string \<Rightarrow> rat" where
  "priceOf ingredient =
     (case map_of averagePrices (toLowerCase ingredient) of Some p \<Rightarrow> p | None \<Rightarrow> 5 / 2)"

text \<open>
  The invariant of the loop over the recipes: after the listings \<open>cs\<close> the object
  \<^verbatim>\<open>groceryList.ingredients\<close> holds, under pairwise different keys, exactly the names
  listed, each with its expected entry.
\<close>

definition agrees ::
  "Options \<Rightarrow> (string \<times> Recipe) list \<Rightarrow> (string \<times> IngredientEntry) list \<Rightarrow> bool" where
  "agrees options cs ings \<longleftrightarrow>
     distinct (map fst ings) \<and>
     map_of ings = (\<lambda>k. if k \<in> fst ` set cs then Some (entryFor options cs k) else None)"

text \<open>Every entry of a bucket carries the category the bucket is filed under.\<close>

definition bucketsOk :: "(string \<times> IngredientEntry list) list \<Rightarrow> bool" where
  "bucketsOk cats \<longleftrightarrow> (\<forall>cb \<in> set cats. \<forall>e \<in> set (snd cb). category e = fst cb)"

subsection \<open>A worked example\<close>

text \<open>
  The scenario of the specification, recipes 1 and 2, and three more recipes: one that
  lists an ingredient twice, one with a capitalised name and one that names an inherited
  property. Identifiers from 6 on do not resolve.
\<close>

definition exampleModel :: "int \<Rightarrow> Recipe option" where
  "exampleModel rid =
     (if rid = 1 then
        Some \<lparr>recipe_id = 1, recipe_name = ''Omelet'', recipe_servings = 2,
              recipe_cookingTime = 10, recipe_ingredients = [''eggs'', ''cheese'', ''butter'']\<rparr>
      else if rid = 2 then
        Some \<lparr>recipe_id = 2, recipe_name = ''Toast'', recipe_servings = 1,
              recipe_cookingTime = 5, recipe_ingredients = [''bread'', ''butter'']\<rparr>
      else if rid = 3 then
        Some \<lparr>recipe_id = 3, recipe_name = ''Egg salad'', recipe_servings = 3,
              recipe_cookingTime = 15, recipe_ingredients = [''eggs'', ''salt'', ''eggs'']\<rparr>
      else if rid = 4 then
        Some \<lparr>recipe_id = 4, recipe_name = ''Builder bowl'', recipe_servings = 4,
              recipe_cookingTime = 20, recipe_ingredients = [''Constructor'']\<rparr>
      else if rid = 5 then
        Some \<lparr>recipe_id = 5, recipe_name = ''Text soup'', recipe_servings = 4,
              recipe_cookingTime = 20, recipe_ingredients = [''toString'']\<rparr>
      else None)"

definition noOptions :: Options where
  "noOptions = \<lparr>servings = None, excludeIngredients = []\<rparr>"

definition exclButter :: Options where
  "exclButter = \<lparr>servings = None, excludeIngredients = [''butter'']\<rparr>"

definition servings4 :: Options where
  "servings4 = \<lparr>servings = Some 4, excludeIngredients = []\<rparr>"

text \<open>An exclusion list with a capitalised element.\<close>

definition exclCapital :: Options where
  "exclCapital = \<lparr>servings = None, excludeIngredients = [''Butter'']\<rparr>"

text \<open>A recipe with two kinds of eggs; its two ingredient names differ from position 5 on.\<close>

definition eggModel :: "int \<Rightarrow> Recipe option" where
  "eggModel rid =
     (if rid = 1 then
        Some \<lparr>recipe_id = 1, recipe_name = ''Egg tasting'', recipe_servings = 2,
              recipe_cookingTime = 10,
              recipe_ingredients = [''eggs (large)'', ''eggs - large'']\<rparr>
      else None)"

text \<open>
  The examples need a comparator to run. \<open>lowerCompare\<close> is a sample comparator that orders
  names by the code units of their lower-cased forms. It is not the collation of the host.
\<close>

definition lowerCompare :: "string \<Rightarrow> string \<Rightarrow> int" where
  "lowerCompare a b =
     (if toLowerCase a < toLowerCase b then - 1 else if toLowerCase b < toLowerCase a then 1 else 0)"

text \<open>
  The collation of the host ranks punctuation by its own table, not by code units: the
  hyphen-minus (code unit 45) comes before the left parenthesis (code unit 40), so that
  \<^verbatim>\<open>"eggs (large)".localeCompare("eggs - large")\<close> is 1. \<open>collationCompare\<close> is a sample
  comparator with that property: it orders names by the weights of their lower-cased code
  units, twice the code unit, but 79 for the hyphen-minus, just below the 80 of the left
  parenthesis.
\<close>

definition collationWeight :: "char \<Rightarrow> nat" where
  "collationWeight c = (if c = CHR ''-'' then 79 else 2 * of_char (toLowerChar c))"

definition collationCompare :: "string \<Rightarrow> string \<Rightarrow> int" where
  "collationCompare a b =
     (if map collationWeight a < map collationWeight b then - 1
      else if map collationWeight b < map collationWeight a then 1 else 0)"

subsection \<open>Facts about strings\<close>

lemma startsWith_prefix: "startsWith s t = prefix t s"
  by (induction s t rule: startsWith.induct) auto

lemma includes_sublist: "str_includes s t = sublist t s"
  by (induction s) (auto simp: startsWith_prefix sublist_Cons_right)

text \<open>
  Lower-casing at three code units of the Latin-1 Supplement (capital E with acute, the
  multiplication sign, small e with acute), and lower-casing twice is lower-casing once.
\<close>

lemma toLowerChar_latin1:
  "toLowerChar (char_of (201 :: nat)) = char_of (233 :: nat)"
  "toLowerChar (char_of (215 :: nat)) = char_of (215 :: nat)"
  "toLowerChar (char_of (233 :: nat)) = char_of (233 :: nat)"
  by (simp_all add: toLowerChar_def)

lemma toLowerChar_idem: "toLowerChar (toLowerChar c) = toLowerChar c"
proof -
  have b: "(of_char c :: nat) < 256" by simp
  show ?thesis
  proof (cases "(65 \<le> (of_char c :: nat) \<and> (of_char c :: nat) \<le> 90)
        \<or> (192 \<le> (of_char c :: nat) \<and> (of_char c :: nat) \<le> 222 \<and> (of_char c :: nat) \<noteq> 215)")
    case True
    then have m: "(of_char c + 32 :: nat) mod 256 = of_char c + 32" by auto
    have "(of_char (char_of (of_char c + 32 :: nat)) :: nat) = of_char c + 32"
      by (simp only: of_char_of m)
    with True show ?thesis by (auto simp: toLowerChar_def Let_def)
  next
    case False
    then show ?thesis by (auto simp: toLowerChar_def Let_def)
  qed
qed

lemma toLowerCase_idem: "toLowerCase (toLowerCase s) = toLowerCase s"
  by (simp add: toLowerCase_def toLowerChar_idem)

text \<open>The keywords of the table are in lower case.\<close>

lemma keywords_lower:
  "\<forall>x \<in> set ingredientCategories. \<forall>k \<in> set (snd x). toLowerCase k = k"
  by (simp add: ingredientCategories_def toLowerCase_def toLowerChar_def)

lemma itemMatches_keywordMatch:
  assumes "\<forall>k \<in> set ks. toLowerCase k = k"
  shows "list_ex (itemMatches (toLowerCase n)) ks = keywordMatch n ks"
  using assms by (auto simp: list_ex_iff itemMatches_def keywordMatch_def includes_sublist)

lemma categorizeLoop_find_snd:
  assumes "\<forall>x \<in> set tbl. \<forall>k \<in> set (snd x). toLowerCase k = k"
  shows "categorizeLoop tbl (toLowerCase n) =
     (case find (\<lambda>x. keywordMatch n (snd x)) tbl of None \<Rightarrow> ''other'' | Some x \<Rightarrow> fst x)"
  using assms
proof (induction tbl)
  case Nil
  show ?case by simp
next
  case (Cons x tbl)
  obtain c ks where x: "x = (c, ks)" by (cases x)
  have "\<forall>k \<in> set ks. toLowerCase k = k" using Cons.prems x by simp
  then have m: "list_ex (itemMatches (toLowerCase n)) ks = keywordMatch n ks"
    by (rule itemMatches_keywordMatch)
  have "\<forall>x \<in> set tbl. \<forall>k \<in> set (snd x). toLowerCase k = k" using Cons.prems by simp
  from Cons.IH[OF this] show ?case by (simp add: x m)
qed

lemma categorizeLoop_find:
  assumes "\<forall>x \<in> set tbl. \<forall>k \<in> set (snd x). toLowerCase k = k"
  shows "categorizeLoop tbl (toLowerCase n) =
     (case find (\<lambda>(c, ks). keywordMatch n ks) tbl of
        None \<Rightarrow> ''other''
      | Some (c, ks) \<Rightarrow> c)"
proof -
  have "(\<lambda>(c, ks). keywordMatch n ks) = (\<lambda>x :: string \<times> string list. keywordMatch n (snd x))"
    by (simp add: case_prod_unfold)
  then show ?thesis
    using categorizeLoop_find_snd[OF assms, of n]
    by (simp add: case_prod_unfold split: option.splits)
qed

lemma categorize_position:
  assumes "i < length ingredientCategories" "keywordMatch n (snd (ingredientCategories ! i))"
  shows "\<exists>j\<le>i. categorizeIngredient n = fst (ingredientCategories ! j)
            \<and> keywordMatch n (snd (ingredientCategories ! j))
            \<and> (\<forall>l<j. \<not> keywordMatch n (snd (ingredientCategories ! l)))"
proof -
  define P where "P = (\<lambda>x :: string \<times> string list. keywordMatch n (snd x))"
  have Pi: "P (ingredientCategories ! i)" using assms(2) by (simp add: P_def)
  have "ingredientCategories ! i \<in> set ingredientCategories"
    using assms(1) by (rule nth_mem)
  with Pi have "\<not> (\<forall>x\<in>set ingredientCategories. \<not> P x)" by (rule_tac notI) (erule ballE, auto)
  then have "find P ingredientCategories \<noteq> None"
    by (simp only: find_None_iff2 find_None_iff not_not) auto
  then obtain x where f: "find P ingredientCategories = Some x" by (cases "find P ingredientCategories") auto
  from f obtain j where j: "j < length ingredientCategories" "P (ingredientCategories ! j)"
      "x = ingredientCategories ! j" "\<forall>l<j. \<not> P (ingredientCategories ! l)"
    unfolding find_Some_iff by (elim exE conjE) (rule that)
  have "j \<le> i"
  proof (rule ccontr)
    assume "\<not> j \<le> i"
    then have "i < j" by simp
    with j(4) have "\<not> P (ingredientCategories ! i)" by (elim allE impE) assumption
    with Pi show False by simp
  qed
  moreover have "categorizeIngredient n = fst (ingredientCategories ! j)"
    using f j(3)
    by (simp add: categorizeIngredient_def categorizeLoop_find_snd[OF keywords_lower] P_def)
  ultimately show ?thesis using j(2,4) unfolding P_def by (intro exI[of _ j] conjI)
qed

lemma categorize_tomato: "categorizeIngredient ''Cherry Tomato'' = ''produce''"
  by code_simp

lemma lower_pepper: "toLowerCase ''pepper'' = ''pepper''"
  by (simp add: toLowerCase_def toLowerChar_def)


subsection \<open>Facts about binary64 rounding\<close>

lemma pow2_pos: "0 < power_int (2::rat) e"
  by (auto simp: power_int_def)

lemma pow2_bitlen_bounds:
  assumes "0 < p"
  shows "power_int (2::rat) (bitlen p - 1) \<le> of_int p" "of_int p < power_int (2::rat) (bitlen p)"
proof -
  have b: "1 \<le> bitlen p" using assms by (auto simp: bitlen_alt_def)
  from bitlen_bounds[OF assms] have 1: "2 ^ nat (bitlen p - 1) \<le> p" and 2: "p < 2 ^ nat (bitlen p)"
    by auto
  have "(of_int (2 ^ nat (bitlen p - 1)) :: rat) \<le> of_int p" using 1 by (simp only: of_int_le_iff)
  then show "power_int (2::rat) (bitlen p - 1) \<le> of_int p"
    using b by (simp add: power_int_def)
  have "(of_int p :: rat) < of_int (2 ^ nat (bitlen p))" using 2 by (simp only: of_int_less_iff)
  then show "of_int p < power_int (2::rat) (bitlen p)"
    using b by (simp add: power_int_def)
qed

lemma ilog2_bounds:
  assumes "0 < x"
  shows "power_int 2 (ilog2 x) \<le> x \<and> x < power_int 2 (ilog2 x + 1)"
proof -
  obtain p q where pq: "quotient_of x = (p, q)" by (cases "quotient_of x")
  then have q: "0 < q" and x: "x = of_int p / of_int q"
    by (auto simp: quotient_of_denom_pos quotient_of_div)
  have p: "0 < p" using assms q x by (simp add: zero_less_divide_iff)
  define e where "e = bitlen p - bitlen q"
  have qr: "(0::rat) < of_int q" using q by simp
  have lo: "power_int 2 (e - 1) < x"
  proof -
    have "power_int (2::rat) (e - 1) * of_int q < power_int 2 (e - 1) * power_int 2 (bitlen q)"
      using pow2_bitlen_bounds(2)[OF q] pow2_pos[of "e - 1"]
      by (simp only: mult_less_cancel_left_pos)
    also have "\<dots> = power_int 2 (bitlen p - 1)"
      by (simp add: e_def power_int_add[symmetric])
    also have "\<dots> \<le> of_int p" by (rule pow2_bitlen_bounds(1)[OF p])
    finally show ?thesis using qr by (simp add: x pos_less_divide_eq)
  qed
  have hi: "x < power_int 2 (e + 1)"
  proof -
    have "of_int p < power_int (2::rat) (bitlen p)" by (rule pow2_bitlen_bounds(2)[OF p])
    also have "\<dots> = power_int 2 (e + 1) * power_int 2 (bitlen q - 1)"
      by (simp add: e_def power_int_add[symmetric])
    also have "\<dots> \<le> power_int 2 (e + 1) * of_int q"
      using pow2_bitlen_bounds(1)[OF q] pow2_pos[of "e + 1"]
      by (simp only: mult_le_cancel_left_pos)
    finally show ?thesis using qr by (simp add: x pos_divide_less_eq)
  qed
  show ?thesis
  proof (cases "power_int 2 e \<le> x")
    case True
    then have "ilog2 x = e" by (simp add: ilog2_def pq e_def)
    with True hi show ?thesis by simp
  next
    case False
    then have "ilog2 x = e - 1" by (simp add: ilog2_def pq e_def)
    with False lo show ?thesis by simp
  qed
qed

lemma ilog2_eqI:
  assumes "power_int 2 e \<le> x" "x < power_int 2 (e + 1)"
  shows "ilog2 x = e"
proof -
  have x: "0 < x" using pow2_pos[of e] assms(1) by linarith
  from ilog2_bounds[OF x] have b: "power_int 2 (ilog2 x) \<le> x" "x < power_int 2 (ilog2 x + 1)"
    by auto
  have "power_int (2::rat) e < power_int 2 (ilog2 x + 1)" using assms(1) b(2) by simp
  then have 1: "e < ilog2 x + 1"
    using power_int_increasing[of "ilog2 x + 1" e "2::rat"] by (cases "e < ilog2 x + 1") auto
  have "power_int (2::rat) (ilog2 x) < power_int 2 (e + 1)" using assms(2) b(1) by simp
  then have 2: "ilog2 x < e + 1"
    using power_int_increasing[of "e + 1" "ilog2 x" "2::rat"] by (cases "ilog2 x < e + 1") auto
  from 1 2 show ?thesis by simp
qed

lemma roundHalfEven_near:
  assumes "of_int n - 1 / 2 < y" "y < of_int n + 1 / 2"
  shows "roundHalfEven y = n"
proof -
  have "\<lfloor>y\<rfloor> = n \<or> \<lfloor>y\<rfloor> = n - 1" using assms by linarith
  then show ?thesis
  proof
    assume f: "\<lfloor>y\<rfloor> = n"
    then show ?thesis using assms by (simp add: roundHalfEven_def Let_def)
  next
    assume f: "\<lfloor>y\<rfloor> = n - 1"
    then show ?thesis using assms by (simp add: roundHalfEven_def Let_def)
  qed
qed

lemma roundHalfEven_tie_down:
  assumes "y = of_int n + 1 / 2" "even n"
  shows "roundHalfEven y = n"
proof -
  have f: "\<lfloor>y\<rfloor> = n" using assms(1) by linarith
  have d: "y - of_int n = 1 / 2" using assms(1) by simp
  show ?thesis unfolding roundHalfEven_def Let_def f d using assms(2) by simp
qed

lemma roundHalfEven_int: "roundHalfEven (of_int n) = n"
  by (rule roundHalfEven_near) simp_all

lemma toDouble_rounded:
  assumes "0 < x" "e = max (ilog2 x) (- 1022)"
    and "roundHalfEven (x / power_int 2 (e - 52)) = n"
    and "r = of_int n * power_int 2 (e - 52)" "r < power_int 2 1024"
  shows "toDouble x = Fin r"
proof -
  have a: "\<bar>x\<bar> = x" using assms(1) by simp
  have z: "(x = 0) = False" using assms(1) by simp
  have o: "(power_int (2::rat) 1024 \<le> of_int n * power_int 2 (e - 52)) = False"
    using assms(4,5) by (simp only: not_le[symmetric])
  have p: "(0 < x) = True" using assms(1) by simp
  show ?thesis
    unfolding toDouble_def Let_def a assms(2)[symmetric] assms(3) z o p
    by (simp only: if_False if_True assms(4))
qed

lemma toDouble_normal:
  assumes "power_int 2 e \<le> x" "x < power_int 2 (e + 1)" "- 1022 \<le> e"
    and "roundHalfEven (x / power_int 2 (e - 52)) = n"
    and "r = of_int n * power_int 2 (e - 52)" "r < power_int 2 1024"
  shows "toDouble x = Fin r"
proof -
  have x: "0 < x" using pow2_pos[of e] assms(1) by linarith
  have i: "ilog2 x = e" using assms(1,2) by (rule ilog2_eqI)
  have m: "e = max (ilog2 x) (- 1022)" using assms(3) i by linarith
  show ?thesis using x m assms(4,5,6) by (rule toDouble_rounded)
qed

lemma toDouble_exact:
  assumes "0 < n" "n < 2 ^ 53" "- 1074 \<le> j" "of_int n * power_int 2 j < power_int (2::rat) 1024"
  shows "toDouble (of_int n * power_int 2 j) = Fin (of_int n * power_int 2 j)"
proof -
  define x :: rat where "x = of_int n * power_int 2 j"
  have x: "0 < x" using assms(1) pow2_pos[of j] by (simp add: x_def)
  define e where "e = max (ilog2 x) (- 1022)"
  have "x < power_int 2 (53 + j)"
  proof -
    have "(of_int n :: rat) < of_int (2 ^ 53)" using assms(2) by (simp only: of_int_less_iff)
    then have lt: "(of_int n :: rat) < power_int 2 53" by simp
    have "of_int n * power_int 2 j < power_int (2::rat) 53 * power_int 2 j"
      using lt pow2_pos[of j] by (rule mult_strict_right_mono)
    also have "power_int (2::rat) 53 * power_int 2 j = power_int 2 (53 + j)"
      by (rule power_int_add[symmetric]) simp
    finally show ?thesis by (simp only: x_def)
  qed
  moreover have "power_int 2 (ilog2 x) \<le> x" using ilog2_bounds[OF x] by simp
  ultimately have "power_int (2::rat) (ilog2 x) < power_int 2 (53 + j)" by simp
  then have "ilog2 x < 53 + j"
    using power_int_increasing[of "53 + j" "ilog2 x" "2::rat"] by (cases "ilog2 x < 53 + j") auto
  then have d: "0 \<le> j - (e - 52)" using assms(3) by (simp add: e_def)
  define N where "N = n * 2 ^ nat (j - (e - 52))"
  have q: "x / power_int 2 (e - 52) = of_int N"
  proof -
    have "x / power_int 2 (e - 52) = of_int n * power_int 2 (j - (e - 52))"
      by (simp add: x_def power_int_diff)
    also have "power_int (2::rat) (j - (e - 52)) = of_int (2 ^ nat (j - (e - 52)))"
      using d by (simp add: power_int_def)
    finally show ?thesis by (simp add: N_def)
  qed
  have r: "roundHalfEven (x / power_int 2 (e - 52)) = N"
    unfolding q by (rule roundHalfEven_int)
  have v: "x = of_int N * power_int 2 (e - 52)"
    using q pow2_pos[of "e - 52"] by (simp add: field_simps)
  have "toDouble x = Fin x"
    using x e_def r v assms(4)[folded x_def] by (rule toDouble_rounded)
  then show ?thesis by (simp add: x_def)
qed

lemma toDouble_int:
  assumes "0 < n" "n < 2 ^ 53"
  shows "toDouble (of_int n) = Fin (of_int n)"
proof -
  have "(of_int n :: rat) < of_int (2 ^ 53)" using assms(2) by (simp only: of_int_less_iff)
  then have "of_int n * power_int 2 0 < power_int (2::rat) 1024" by simp
  from toDouble_exact[OF assms, of 0, OF _ this] show ?thesis by simp
qed

lemma roundHalfEven_error: "\<bar>of_int (roundHalfEven y) - y\<bar> \<le> 1 / 2"
proof -
  define f where "f = \<lfloor>y\<rfloor>"
  have b: "of_int f \<le> y" "y < of_int f + 1" unfolding f_def by linarith+
  have "roundHalfEven y = f \<and> y - of_int f \<le> 1 / 2
      \<or> roundHalfEven y = f + 1 \<and> 1 / 2 \<le> y - of_int f"
    unfolding roundHalfEven_def Let_def f_def[symmetric] by auto
  then show ?thesis using b by auto
qed

lemma toDouble_normal_range:
  assumes "power_int 2 (- 1022) \<le> x" "x \<le> 2 ^ 1010"
  shows "\<exists>r. toDouble x = Fin r \<and> \<bar>r - x\<bar> \<le> x / 2 ^ 53 \<and> 0 < r"
proof -
  have x: "0 < x" using pow2_pos[of "- 1022"] assms(1) by linarith
  define e where "e = ilog2 x"
  have lo: "power_int 2 e \<le> x" and hi: "x < power_int 2 (e + 1)"
    using ilog2_bounds[OF x] by (simp_all add: e_def)
  have "power_int (2::rat) (- 1022) < power_int 2 (e + 1)" using assms(1) hi by simp
  then have "- 1022 < e + 1"
    using power_int_increasing[of "e + 1" "- 1022" "2::rat"] by (cases "- 1022 < e + 1") auto
  then have m: "e = max (ilog2 x) (- 1022)" by (simp add: e_def)
  define q :: rat where "q = power_int 2 (e - 52)"
  have q: "0 < q" by (simp add: q_def pow2_pos)
  have q52: "q * 2 ^ 52 = power_int 2 e"
    by (simp add: q_def power_int_diff)
  define N where "N = roundHalfEven (x / q)"
  define r where "r = of_int N * q"
  have "\<bar>of_int N - x / q\<bar> \<le> 1 / 2" unfolding N_def by (rule roundHalfEven_error)
  then have "\<bar>of_int N - x / q\<bar> * q \<le> 1 / 2 * q" using q by (simp only: mult_le_cancel_right_pos)
  moreover have "\<bar>of_int N - x / q\<bar> * q = \<bar>r - x\<bar>"
  proof -
    have "\<bar>of_int N - x / q\<bar> * q = \<bar>(of_int N - x / q) * q\<bar>" using q by (simp add: abs_mult)
    also have "(of_int N - x / q) * q = r - x" using q by (simp add: r_def field_simps)
    finally show ?thesis .
  qed
  ultimately have err: "\<bar>r - x\<bar> \<le> q / 2" by simp
  have "q / 2 = power_int 2 e / 2 ^ 53" using q52[symmetric] by simp
  also have "\<dots> \<le> x / 2 ^ 53" using lo by (simp add: divide_right_mono)
  finally have qx: "q / 2 \<le> x / 2 ^ 53" .
  from err qx have e1: "\<bar>r - x\<bar> \<le> x / 2 ^ 53" by linarith
  have "x / 2 ^ 53 < x" using x by simp
  with e1 have rpos: "0 < r" and rle: "r < 2 * x" by linarith+
  have "2 * x \<le> 2 * 2 ^ 1010" using assms(2) by simp
  also have "\<dots> < (power_int 2 1024 :: rat)" by simp
  finally have "2 * x < power_int 2 1024" .
  with rle have fin: "r < power_int 2 1024" by linarith
  have "toDouble x = Fin r"
    using x m N_def[symmetric, unfolded q_def] r_def[unfolded q_def] fin
    by (rule toDouble_rounded)
  with e1 rpos show ?thesis by blast
qed


subsection \<open>Facts about the loop over the recipes\<close>

lemma js_get_Own: "js_get obj k = Own v \<longleftrightarrow> map_of obj k = Some v"
  by (auto simp: js_get_def split: option.splits)

lemma js_get_Undefined:
  "js_get obj k = Undefined \<longleftrightarrow> map_of obj k = None \<and> k \<notin> set objectPrototypeKeys"
  by (auto simp: js_get_def split: option.splits)

lemma js_get_Inherited:
  "js_get obj k = Inherited \<longleftrightarrow> map_of obj k = None \<and> k \<in> set objectPrototypeKeys"
  by (auto simp: js_get_def split: option.splits)

lemma listings_append: "listings k (cs @ ds) = listings k cs @ listings k ds"
  by (simp add: listings_def)

lemma listings_other: "k \<noteq> i \<Longrightarrow> listings k [(i, r)] = []"
  by (simp add: listings_def)

lemma listings_same: "listings i [(i, r)] = [r]"
  by (simp add: listings_def)

lemma listings_empty_iff: "listings k cs = [] \<longleftrightarrow> k \<notin> fst ` set cs"
  by (induction cs) (auto simp: listings_def)

lemma entryFor_other: "k \<noteq> i \<Longrightarrow> entryFor options (cs @ [(i, r)]) k = entryFor options cs k"
  by (simp add: entryFor_def listings_append listings_other)

lemma addIngredient_excluded:
  "toLowerCase i \<in> set (excludeIngredients options) \<Longrightarrow> addIngredient options r ings i = Inr ings"
  by (simp add: addIngredient_def)

lemma addIngredient_step:
  assumes "agrees options cs ings" "toLowerCase i \<notin> set (excludeIngredients options)"
    and "i \<in> fst ` set cs \<or> i \<notin> set objectPrototypeKeys"
  shows "addIngredient options r ings i
           = Inr (AList.update i (entryFor options (cs @ [(i, r)]) i) ings)"
proof (cases "i \<in> fst ` set cs")
  case True
  then have m: "map_of ings i = Some (entryFor options cs i)"
    using assms(1) by (simp add: agrees_def)
  have ne: "listings i cs \<noteq> []" using True by (simp add: listings_empty_iff)
  have e: "(entryFor options cs i)\<lparr>recipes := recipes (entryFor options cs i)
             @ [\<lparr>recipeId = recipe_id r, recipeName = recipe_name r\<rparr>]\<rparr>
           = entryFor options (cs @ [(i, r)]) i"
    using ne by (simp add: entryFor_def Let_def listings_append listings_same refOf_def)
  have g: "js_get ings i = Own (entryFor options cs i)" using m by (simp add: js_get_Own)
  show ?thesis
    using assms(2) by (simp add: addIngredient_def g js_set_def e)
next
  case False
  then have m: "map_of ings i = None" using assms(1) by (simp add: agrees_def)
  from False assms(3) have np: "i \<notin> set objectPrototypeKeys" by simp
  have g: "js_get ings i = Undefined" using m np by (simp add: js_get_Undefined)
  have le: "listings i cs = []" using False by (simp add: listings_empty_iff)
  define e0 where "e0 = \<lparr>name = i,
      quantity = amount (calculateIngredientQuantity i (servingMultiplier options r)),
      unit = q_unit (calculateIngredientQuantity i (servingMultiplier options r)),
      category = categorizeIngredient i, recipes = [],
      notes' = q_notes (calculateIngredientQuantity i (servingMultiplier options r))\<rparr>"
  have g1: "js_get (AList.update i e0 ings) i = Own e0"
    by (simp add: js_get_Own update_conv')
  have e: "e0\<lparr>recipes := recipes e0 @ [\<lparr>recipeId = recipe_id r, recipeName = recipe_name r\<rparr>]\<rparr>
           = entryFor options (cs @ [(i, r)]) i"
    using le by (simp add: e0_def entryFor_def Let_def listings_append listings_same refOf_def)
  show ?thesis
    using assms(2) by (simp add: addIngredient_def g js_set_def Let_def e0_def[symmetric] g1 e)
qed

lemma addIngredient_inherited:
  assumes "agrees options cs ings" "toLowerCase i \<notin> set (excludeIngredients options)"
    and "i \<notin> fst ` set cs" "i \<in> set objectPrototypeKeys"
  shows "addIngredient options r ings i = Inl TypeError"
proof -
  have m: "map_of ings i = None" using assms(1,3) by (simp add: agrees_def)
  then have g: "js_get ings i = Inherited" using assms(4) by (simp add: js_get_Inherited)
  show ?thesis using assms(2) by (simp add: addIngredient_def g)
qed

lemma agrees_update:
  assumes "agrees options cs ings"
  shows "agrees options (cs @ [(i, r)]) (AList.update i (entryFor options (cs @ [(i, r)]) i) ings)"
proof -
  have d: "distinct (map fst (AList.update i (entryFor options (cs @ [(i, r)]) i) ings))"
    using assms by (simp add: agrees_def distinct_update)
  have "map_of (AList.update i (entryFor options (cs @ [(i, r)]) i) ings) k
        = (if k \<in> fst ` set (cs @ [(i, r)]) then Some (entryFor options (cs @ [(i, r)]) k) else None)" for k
    using assms by (cases "k = i") (auto simp: agrees_def update_conv' entryFor_other)
  then show ?thesis using d unfolding agrees_def by blast
qed


lemma addIngredients_agrees:
  assumes "agrees options cs ings" "addIngredients options r ings is = Inr ings'"
  shows "agrees options (cs @ map (\<lambda>i. (i, r)) (keptOf options is)) ings'"
  using assms
proof (induction "is" arbitrary: ings cs)
  case Nil
  then show ?case by (simp add: keptOf_def)
next
  case (Cons i "is")
  show ?case
  proof (cases "toLowerCase i \<in> set (excludeIngredients options)")
    case True
    then have "addIngredients options r ings is = Inr ings'"
      using Cons.prems(2) by (simp add: addIngredient_excluded)
    from Cons.IH[OF Cons.prems(1) this] True show ?thesis by (simp add: keptOf_def)
  next
    case False
    show ?thesis
    proof (cases "i \<in> fst ` set cs \<or> i \<notin> set objectPrototypeKeys")
      case True
      let ?ings1 = "AList.update i (entryFor options (cs @ [(i, r)]) i) ings"
      have s: "addIngredient options r ings i = Inr ?ings1"
        using Cons.prems(1) False True by (rule addIngredient_step)
      then have "addIngredients options r ?ings1 is = Inr ings'"
        using Cons.prems(2) by simp
      from Cons.IH[OF agrees_update[OF Cons.prems(1)] this] False
      show ?thesis by (simp add: keptOf_def)
    next
      case F2: False
      then have "addIngredient options r ings i = Inl TypeError"
        using Cons.prems(1) False by (simp add: addIngredient_inherited)
      then show ?thesis using Cons.prems(2) by simp
    qed
  qed
qed

lemma addIngredients_error:
  assumes "agrees options cs ings" "addIngredients options r ings is = Inl e"
  shows "e = TypeError \<and> (\<exists>i \<in> set (keptOf options is). i \<in> set objectPrototypeKeys)"
  using assms
proof (induction "is" arbitrary: ings cs)
  case Nil
  then show ?case by simp
next
  case (Cons i "is")
  show ?case
  proof (cases "toLowerCase i \<in> set (excludeIngredients options)")
    case True
    then have "addIngredients options r ings is = Inl e"
      using Cons.prems(2) by (simp add: addIngredient_excluded)
    from Cons.IH[OF Cons.prems(1) this] True show ?thesis by (simp add: keptOf_def)
  next
    case False
    show ?thesis
    proof (cases "i \<in> fst ` set cs \<or> i \<notin> set objectPrototypeKeys")
      case True
      let ?ings1 = "AList.update i (entryFor options (cs @ [(i, r)]) i) ings"
      have s: "addIngredient options r ings i = Inr ?ings1"
        using Cons.prems(1) False True by (rule addIngredient_step)
      then have "addIngredients options r ?ings1 is = Inl e"
        using Cons.prems(2) by simp
      from Cons.IH[OF agrees_update[OF Cons.prems(1)] this] False
      show ?thesis by (simp add: keptOf_def)
    next
      case F2: False
      then have "addIngredient options r ings i = Inl TypeError"
        using Cons.prems(1) False by (simp add: addIngredient_inherited)
      then show ?thesis using Cons.prems(2) False F2 by (auto simp: keptOf_def)
    qed
  qed
qed

lemma addIngredients_total:
  assumes "agrees options cs ings" "\<forall>i \<in> set (keptOf options is). i \<notin> set objectPrototypeKeys"
  shows "\<exists>ings'. addIngredients options r ings is = Inr ings'"
proof (cases "addIngredients options r ings is")
  case (Inl e)
  from addIngredients_error[OF assms(1) Inl] assms(2) show ?thesis by blast
next
  case (Inr ings')
  then show ?thesis by blast
qed

lemma contributions_Nil: "contributions options [] = []"
  by (simp add: contributions_def)

lemma contributions_Cons:
  "contributions options (r # rs)
     = map (\<lambda>i. (i, r)) (keptOf options (recipe_ingredients r)) @ contributions options rs"
  by (simp add: contributions_def kept_def)

lemma processRecipes_agrees:
  assumes "agrees options cs (ingredients gl)" "processRecipes model options gl ids = Inr gl'"
  shows "\<exists>rs. map model ids = map Some rs
            \<and> agrees options (cs @ contributions options rs) (ingredients gl')"
  using assms
proof (induction ids arbitrary: gl cs)
  case Nil
  then show ?case by (auto simp: contributions_Nil)
next
  case (Cons rid ids)
  from Cons.prems(2) obtain r where r: "model rid = Some r"
    by (cases "model rid") (auto simp: getRecipeById_def)
  from Cons.prems(2) r obtain ings where
    a: "addIngredients options r (ingredients gl) (recipe_ingredients r) = Inr ings"
    by (cases "addIngredients options r (ingredients gl) (recipe_ingredients r)")
       (auto simp: getRecipeById_def Let_def)
  define gl1 where "gl1 = gl
      \<lparr>list_recipes := list_recipes gl @ [\<lparr>info_id = recipe_id r, info_name = recipe_name r,
           info_servings = (case servings options of
                      Some s \<Rightarrow> if s \<noteq> 0 then s else recipe_servings r
                    | None \<Rightarrow> recipe_servings r),
           info_cookingTime = recipe_cookingTime r\<rparr>],
       ingredients := ings,
       summary := (summary gl)\<lparr>estimatedTime :=
          js_add (estimatedTime (summary gl)) (Fin (of_nat (recipe_cookingTime r)))\<rparr>\<rparr>"
  have p: "processRecipes model options gl1 ids = Inr gl'"
    using Cons.prems(2) r a by (simp add: getRecipeById_def Let_def gl1_def)
  have ag: "agrees options (cs @ map (\<lambda>i. (i, r)) (keptOf options (recipe_ingredients r)))
              (ingredients gl1)"
    using addIngredients_agrees[OF Cons.prems(1) a] by (simp add: gl1_def)
  from Cons.IH[OF ag p] obtain rs where rs: "map model ids = map Some rs"
    "agrees options ((cs @ map (\<lambda>i. (i, r)) (keptOf options (recipe_ingredients r)))
        @ contributions options rs) (ingredients gl')" by blast
  have "map model (rid # ids) = map Some (r # rs)" using r rs(1) by simp
  moreover have "agrees options (cs @ contributions options (r # rs)) (ingredients gl')"
    using rs(2) by (simp add: contributions_Cons)
  ultimately show ?case by blast
qed


lemma processRecipes_append:
  "processRecipes model options gl (xs @ ys) =
     (case processRecipes model options gl xs of
        Inl e \<Rightarrow> Inl e
      | Inr gl1 \<Rightarrow> processRecipes model options gl1 ys)"
  by (induction xs arbitrary: gl) (auto simp: Let_def split: sum.splits)

lemma processRecipes_total:
  assumes "agrees options cs (ingredients gl)" "map model ids = map Some rs"
    and "\<forall>r \<in> set rs. \<forall>i \<in> set (kept options r). i \<notin> set objectPrototypeKeys"
  shows "\<exists>gl'. processRecipes model options gl ids = Inr gl'"
  using assms
proof (induction ids arbitrary: gl cs rs)
  case Nil
  then show ?case by simp
next
  case (Cons rid ids)
  from Cons.prems(2) obtain r rs' where rs: "rs = r # rs'" "model rid = Some r"
    "map model ids = map Some rs'" by (cases rs) auto
  have k: "\<forall>i \<in> set (keptOf options (recipe_ingredients r)). i \<notin> set objectPrototypeKeys"
    using Cons.prems(3) rs(1) by (simp add: kept_def)
  from addIngredients_total[OF Cons.prems(1) k] obtain ings where
    a: "addIngredients options r (ingredients gl) (recipe_ingredients r) = Inr ings" by blast
  define gl1 where "gl1 = gl
      \<lparr>list_recipes := list_recipes gl @ [\<lparr>info_id = recipe_id r, info_name = recipe_name r,
           info_servings = (case servings options of
                      Some s \<Rightarrow> if s \<noteq> 0 then s else recipe_servings r
                    | None \<Rightarrow> recipe_servings r),
           info_cookingTime = recipe_cookingTime r\<rparr>],
       ingredients := ings,
       summary := (summary gl)\<lparr>estimatedTime :=
          js_add (estimatedTime (summary gl)) (Fin (of_nat (recipe_cookingTime r)))\<rparr>\<rparr>"
  have ag: "agrees options (cs @ map (\<lambda>i. (i, r)) (keptOf options (recipe_ingredients r)))
              (ingredients gl1)"
    using addIngredients_agrees[OF Cons.prems(1) a] by (simp add: gl1_def)
  have "\<forall>r \<in> set rs'. \<forall>i \<in> set (kept options r). i \<notin> set objectPrototypeKeys"
    using Cons.prems(3) rs(1) by simp
  from Cons.IH[OF ag rs(3) this] obtain gl' where
    "processRecipes model options gl1 ids = Inr gl'" by blast
  then have "processRecipes model options gl (rid # ids) = Inr gl'"
    using rs(2) a by (simp add: getRecipeById_def Let_def gl1_def)
  then show ?case by blast
qed

lemma agrees_empty: "agrees options [] []"
  by (simp add: agrees_def)

subsection \<open>Facts about the buckets\<close>

lemma addToCategory_Inr:
  assumes "addToCategory cats e = Inr cats'"
  shows "cats' = AList.update (category e)
            ((case map_of cats (category e) of Some b \<Rightarrow> b | None \<Rightarrow> []) @ [e]) cats"
proof (cases "js_get cats (category e)")
  case (Own b)
  then have "map_of cats (category e) = Some b" by (simp add: js_get_Own)
  with Own assms show ?thesis by (auto simp: addToCategory_def Let_def js_set_def)
next
  case Inherited
  with assms show ?thesis by (simp add: addToCategory_def Let_def)
next
  case Undefined
  then have m: "map_of cats (category e) = None" by (simp add: js_get_Undefined)
  have g: "js_get (AList.update (category e) [] cats) (category e) = Own []"
    by (simp add: js_get_Own update_conv')
  from assms Undefined g m show ?thesis by (simp add: addToCategory_def Let_def js_set_def)
qed

lemma addToCategory_total:
  assumes "category e \<notin> set objectPrototypeKeys"
  shows "\<exists>cats'. addToCategory cats e = Inr cats'"
proof (cases "js_get cats (category e)")
  case (Own b)
  then show ?thesis by (simp add: addToCategory_def Let_def)
next
  case Inherited
  with assms show ?thesis by (simp add: js_get_Inherited)
next
  case Undefined
  have g: "js_get (AList.update (category e) [] cats) (category e) = Own []"
    by (simp add: js_get_Own update_conv')
  from Undefined g show ?thesis by (simp add: addToCategory_def Let_def js_set_def)
qed

lemma concat_update_bucket:
  "mset (concat (map snd (AList.update c
      ((case map_of cats c of Some b \<Rightarrow> b | None \<Rightarrow> []) @ [e]) cats)))
   = mset (concat (map snd cats)) + {#e#}"
  by (induction cats) auto

lemma set_update_subset:
  "set (AList.update c v cats) \<subseteq> insert (c, v) (set cats)"
  by (induction cats) auto

lemma organize_inv:
  assumes "organize cats es = Inr cats'" "distinct (map fst cats)" "bucketsOk cats"
  shows "distinct (map fst cats') \<and> bucketsOk cats'
         \<and> mset (concat (map snd cats')) = mset (concat (map snd cats)) + mset es"
  using assms
proof (induction es arbitrary: cats)
  case Nil
  then show ?case by simp
next
  case (Cons e es)
  from Cons.prems(1) obtain cats1 where a: "addToCategory cats e = Inr cats1"
    and o: "organize cats1 es = Inr cats'"
    by (cases "addToCategory cats e") auto
  define b0 where "b0 = (case map_of cats (category e) of Some b \<Rightarrow> b | None \<Rightarrow> [])"
  have c1: "cats1 = AList.update (category e) (b0 @ [e]) cats"
    using addToCategory_Inr[OF a] by (simp add: b0_def)
  have d1: "distinct (map fst cats1)" using Cons.prems(2) by (simp add: c1 distinct_update)
  have old: "\<forall>x \<in> set b0. category x = category e"
  proof (cases "map_of cats (category e)")
    case None
    then show ?thesis by (simp add: b0_def)
  next
    case (Some b)
    then have "(category e, b) \<in> set cats" by (rule map_of_SomeD)
    then have "\<forall>x \<in> set b. category x = category e"
      using Cons.prems(3) unfolding bucketsOk_def by fastforce
    then show ?thesis using Some by (simp add: b0_def)
  qed
  have b1: "bucketsOk cats1"
    unfolding bucketsOk_def
  proof
    fix cb assume "cb \<in> set cats1"
    then have "cb = (category e, b0 @ [e]) \<or> cb \<in> set cats"
      using set_update_subset[of "category e" "b0 @ [e]" cats] unfolding c1 by blast
    then show "\<forall>x \<in> set (snd cb). category x = fst cb"
    proof
      assume "cb = (category e, b0 @ [e])"
      then show ?thesis using old by simp
    next
      assume "cb \<in> set cats"
      then show ?thesis using Cons.prems(3) unfolding bucketsOk_def by blast
    qed
  qed
  have m1: "mset (concat (map snd cats1)) = mset (concat (map snd cats)) + {#e#}"
    unfolding c1 b0_def by (rule concat_update_bucket)
  from Cons.IH[OF o d1 b1] m1 show ?case by simp
qed

lemma organize_total:
  assumes "\<forall>e \<in> set es. category e \<notin> set objectPrototypeKeys"
  shows "\<exists>cats'. organize cats es = Inr cats'"
  using assms
proof (induction es arbitrary: cats)
  case Nil
  then show ?case by simp
next
  case (Cons e es)
  then obtain cats1 where "addToCategory cats e = Inr cats1"
    using addToCategory_total[of e cats] by auto
  with Cons show ?case by simp
qed

lemma mset_insertEntry: "mset (insertEntry cmp x ys) = mset ys + {#x#}"
  by (induction ys) auto

lemma mset_Array_sort_aux:
  "mset (foldl (\<lambda>acc x. insertEntry cmp x acc) acc xs) = mset acc + mset xs"
  by (induction xs arbitrary: acc) (auto simp: mset_insertEntry)

lemma mset_Array_sort: "mset (Array_sort cmp xs) = mset xs"
  by (simp add: Array_sort_def mset_Array_sort_aux)

lemma mset_Object_entries: "mset (Object_entries obj) = mset obj"
  by (simp add: Object_entries_def)


lemma length_Object_entries: "length (Object_entries obj) = length obj"
  using mset_Object_entries[of obj] by (metis size_mset)

lemma sorted_buckets_keys:
  "map fst (map (\<lambda>(c, b). (c, Array_sort cmp b)) cats) = map fst cats"
  by (induction cats) auto

lemma sorted_buckets_mset:
  "mset (concat (map snd (map (\<lambda>(c, b). (c, Array_sort cmp b)) cats)))
     = mset (concat (map snd cats))"
  by (induction cats) (auto simp: mset_Array_sort)

lemma set_Array_sort: "set (Array_sort cmp xs) = set xs"
  using mset_Array_sort[of cmp xs] by (rule mset_eq_setD)

lemma sorted_buckets_ok:
  assumes "bucketsOk cats"
  shows "bucketsOk (map (\<lambda>(c, b). (c, Array_sort cmp b)) cats)"
  using assms unfolding bucketsOk_def by (induction cats) (auto simp: set_Array_sort)

lemma categorizeLoop_range:
  "categorizeLoop tbl l \<in> insert ''other'' (fst ` set tbl)"
  by (induction tbl) force+

lemma categorizeIngredient_range:
  "categorizeIngredient k \<in> set [''other'', ''produce'', ''dairy'', ''protein'', ''pantry'',
      ''bread'', ''condiments'']"
  using categorizeLoop_range[of ingredientCategories "toLowerCase k"]
  by (simp add: categorizeIngredient_def ingredientCategories_def)

lemma categorizeIngredient_not_inherited:
  "categorizeIngredient k \<notin> set objectPrototypeKeys"
proof -
  have "\<forall>c \<in> set [''other'', ''produce'', ''dairy'', ''protein'', ''pantry'',
      ''bread'', ''condiments'']. c \<notin> set objectPrototypeKeys"
    by (simp add: objectPrototypeKeys_def)
  then show ?thesis using categorizeIngredient_range[of k] by blast
qed

lemma agrees_entry:
  assumes "agrees options cs ings" "(k, e) \<in> set ings"
  shows "k \<in> fst ` set cs \<and> e = entryFor options cs k"
proof -
  have d: "distinct (map fst ings)" using assms(1) by (simp add: agrees_def)
  have "map_of ings k = Some e" using d assms(2) by (rule map_of_is_SomeI)
  moreover have "map_of ings k = (if k \<in> fst ` set cs then Some (entryFor options cs k) else None)"
    using assms(1) by (simp add: agrees_def)
  ultimately show ?thesis by (simp split: if_splits)
qed

lemma agrees_keys:
  assumes "agrees options cs ings"
  shows "set (map fst ings) = fst ` set cs"
proof -
  have "dom (map_of ings) = fst ` set cs"
    using assms by (auto simp: agrees_def dom_def split: if_splits)
  then show ?thesis by (simp add: dom_map_of_conv_image_fst)
qed

lemma generate_Inr:
  assumes "generateGroceryList model cmp ids options = Inr g"
  shows "\<exists>rs cats. map model ids = map Some rs
           \<and> agrees options (contributions options rs) (ingredients g)
           \<and> organize [] (map snd (Object_entries (ingredients g))) = Inr cats
           \<and> categorizedIngredients g = map (\<lambda>(c, b). (c, Array_sort cmp b)) cats
           \<and> totalIngredients (summary g) = length (ingredients g)"
proof -
  from assms obtain gl where p: "processRecipes model options (emptyGroceryList ids) ids = Inr gl"
    by (cases "processRecipes model options (emptyGroceryList ids) ids")
       (auto simp: generateGroceryList_def)
  from assms p obtain cats where o: "organize [] (map snd (Object_entries (ingredients gl))) = Inr cats"
    by (cases "organize [] (map snd (Object_entries (ingredients gl)))")
       (auto simp: generateGroceryList_def)
  have g: "g = gl\<lparr>categorizedIngredients := map (\<lambda>(c, bucket). (c, Array_sort cmp bucket)) cats,
                 summary := (summary gl)
                   \<lparr>totalIngredients := length (Object_keys (ingredients gl)),
                    estimatedCost := estimateTotalCost (ingredients gl)\<rparr>\<rparr>"
    using assms p o by (simp add: generateGroceryList_def)
  have "agrees options [] (ingredients (emptyGroceryList ids))"
    by (simp add: emptyGroceryList_def agrees_empty)
  from processRecipes_agrees[OF this p] obtain rs where rs: "map model ids = map Some rs"
    "agrees options (contributions options rs) (ingredients gl)" by auto
  show ?thesis
    using rs o by (intro exI[of _ rs] exI[of _ cats])
      (simp add: g Object_keys_def length_Object_entries)
qed

lemma generate_total:
  assumes "map model ids = map Some rs"
    and "\<forall>r \<in> set rs. \<forall>i \<in> set (kept options r). i \<notin> set objectPrototypeKeys"
  shows "\<exists>g. generateGroceryList model cmp ids options = Inr g"
proof -
  have a0: "agrees options [] (ingredients (emptyGroceryList ids))"
    by (simp add: emptyGroceryList_def agrees_empty)
  from processRecipes_total[OF a0 assms] obtain gl where
    p: "processRecipes model options (emptyGroceryList ids) ids = Inr gl" by blast
  from processRecipes_agrees[OF a0 p] obtain rs' where
    ag: "agrees options (contributions options rs') (ingredients gl)" by auto
  have "\<forall>e \<in> set (map snd (Object_entries (ingredients gl))). category e \<notin> set objectPrototypeKeys"
  proof
    fix e assume "e \<in> set (map snd (Object_entries (ingredients gl)))"
    then have "e \<in> snd ` set (ingredients gl)"
      using mset_Object_entries[of "ingredients gl"] by (metis set_map mset_eq_setD)
    then obtain k where ke: "(k, e) \<in> set (ingredients gl)" by auto
    then have "e = entryFor options (contributions options rs') k"
      using agrees_entry[OF ag] by simp
    then have "category e = categorizeIngredient k" by (simp add: entryFor_def Let_def)
    then show "category e \<notin> set objectPrototypeKeys"
      using categorizeIngredient_not_inherited by simp
  qed
  from organize_total[OF this] obtain cats where
    "organize [] (map snd (Object_entries (ingredients gl))) = Inr cats" by blast
  with p show ?thesis by (simp add: generateGroceryList_def)
qed


lemma entryFor_name: "name (entryFor options cs k) = k"
  by (simp add: entryFor_def Let_def)

lemma agrees_names:
  assumes "agrees options cs ings"
  shows "map (name \<circ> snd) ings = map fst ings"
proof (rule map_cong[OF refl])
  fix x assume "x \<in> set ings"
  then have "(fst x, snd x) \<in> set ings" by simp
  from agrees_entry[OF assms this] show "(name \<circ> snd) x = fst x"
    by (simp add: entryFor_name)
qed

lemma generate_buckets:
  assumes "generateGroceryList model cmp ids options = Inr g"
  shows "distinct (map fst (categorizedIngredients g))"
    and "bucketsOk (categorizedIngredients g)"
    and "mset (concat (map snd (categorizedIngredients g))) = mset (map snd (ingredients g))"
proof -
  from generate_Inr[OF assms] obtain rs cats where
    o: "organize [] (map snd (Object_entries (ingredients g))) = Inr cats"
    and c: "categorizedIngredients g = map (\<lambda>(c, b). (c, Array_sort cmp b)) cats" by blast
  have "distinct (map fst ([] :: (string \<times> IngredientEntry list) list))" by simp
  moreover have "bucketsOk []" by (simp add: bucketsOk_def)
  ultimately have i: "distinct (map fst cats)" "bucketsOk cats"
    "mset (concat (map snd cats)) = mset (map snd (Object_entries (ingredients g)))"
    using organize_inv[OF o] by auto
  show "distinct (map fst (categorizedIngredients g))"
    using i(1) by (simp only: c sorted_buckets_keys)
  show "bucketsOk (categorizedIngredients g)"
    using i(2) unfolding c by (rule sorted_buckets_ok)
  have "mset (map snd (Object_entries (ingredients g))) = mset (map snd (ingredients g))"
    using mset_Object_entries[of "ingredients g"] by (metis mset_map)
  then show "mset (concat (map snd (categorizedIngredients g))) = mset (map snd (ingredients g))"
    using i(3) by (simp only: c sorted_buckets_mset)
qed

lemma generate_bucket_names:
  assumes "generateGroceryList model cmp ids options = Inr g"
  shows "mset (map name (concat (map snd (categorizedIngredients g))))
           = mset (map fst (ingredients g))"
proof -
  from generate_Inr[OF assms] obtain rs where
    ag: "agrees options (contributions options rs) (ingredients g)" by blast
  have "mset (map name (concat (map snd (categorizedIngredients g))))
          = image_mset name (mset (concat (map snd (categorizedIngredients g))))" by simp
  also have "\<dots> = image_mset name (mset (map snd (ingredients g)))"
    by (simp only: generate_buckets(3)[OF assms])
  also have "\<dots> = mset (map (name \<circ> snd) (ingredients g))"
    by (simp add: multiset.map_comp)
  also have "\<dots> = mset (map fst (ingredients g))" by (simp only: agrees_names[OF ag])
  finally show ?thesis .
qed

lemma generate_one_bucket:
  assumes "generateGroceryList model cmp ids options = Inr g" "k \<in> set (map fst (ingredients g))"
  shows "\<exists>!cb. cb \<in> set (categorizedIngredients g) \<and> k \<in> name ` set (snd cb)"
proof -
  from generate_Inr[OF assms(1)] obtain rs where
    ag: "agrees options (contributions options rs) (ingredients g)" by blast
  have d: "distinct (map fst (ingredients g))" using ag by (simp add: agrees_def)
  have ent: "cb \<in> set (categorizedIngredients g) \<Longrightarrow> e \<in> set (snd cb) \<Longrightarrow> name e = k
      \<Longrightarrow> fst cb = categorizeIngredient k" for cb e
  proof -
    assume a: "cb \<in> set (categorizedIngredients g)" "e \<in> set (snd cb)" "name e = k"
    then have "e \<in> set (concat (map snd (categorizedIngredients g)))" by auto
    then have "e \<in> set (map snd (ingredients g))"
      using generate_buckets(3)[OF assms(1)] by (metis mset_eq_setD)
    then obtain k' where "(k', e) \<in> set (ingredients g)" by auto
    from agrees_entry[OF ag this] have "e = entryFor options (contributions options rs) k'" by simp
    then have "name e = k'" "category e = categorizeIngredient k'"
      by (simp_all add: entryFor_def Let_def)
    moreover have "category e = fst cb"
      using generate_buckets(2)[OF assms(1)] a(1,2) unfolding bucketsOk_def by blast
    ultimately show "fst cb = categorizeIngredient k" using a(3) by simp
  qed
  have "k \<in> set (map name (concat (map snd (categorizedIngredients g))))"
    using assms(2) generate_bucket_names[OF assms(1)] by (metis mset_eq_setD)
  then obtain cb where cb: "cb \<in> set (categorizedIngredients g)" "k \<in> name ` set (snd cb)"
    by auto
  show ?thesis
  proof (rule ex1I[of _ cb])
    show "cb \<in> set (categorizedIngredients g) \<and> k \<in> name ` set (snd cb)" using cb by simp
  next
    fix cb' assume c': "cb' \<in> set (categorizedIngredients g) \<and> k \<in> name ` set (snd cb')"
    have "fst cb' = categorizeIngredient k" using c' ent by blast
    moreover have "fst cb = categorizeIngredient k" using cb ent by blast
    ultimately have "fst cb' = fst cb" by simp
    moreover have "distinct (map fst (categorizedIngredients g))"
      by (rule generate_buckets(1)[OF assms(1)])
    ultimately show "cb' = cb" using c' cb(1) by (metis eq_key_imp_eq_value prod.collapse)
  qed
qed


lemma contributions_keys:
  "fst ` set (contributions options rs) = (\<Union>r \<in> set rs. set (kept options r))"
  by (auto simp: contributions_def image_iff)

lemma example_12: "map exampleModel [1, 2] = map Some
   [\<lparr>recipe_id = 1, recipe_name = ''Omelet'', recipe_servings = 2,
              recipe_cookingTime = 10, recipe_ingredients = [''eggs'', ''cheese'', ''butter'']\<rparr>,
    \<lparr>recipe_id = 2, recipe_name = ''Toast'', recipe_servings = 1,
              recipe_cookingTime = 5, recipe_ingredients = [''bread'', ''butter'']\<rparr>]"
  by (simp add: exampleModel_def)


lemma listings_map: "listings k (map (\<lambda>i. (i, r)) xs) = replicate (count_list xs k) r"
  by (induction xs) (auto simp: listings_def)

lemma listings_contributions:
  "listings k (contributions options rs)
     = concat (map (\<lambda>r. replicate (count_list (kept options r) k) r) rs)"
proof (induction rs)
  case Nil
  show ?case by (simp add: contributions_Nil listings_def)
next
  case (Cons r rs)
  then show ?case
    by (simp add: contributions_Cons listings_append listings_map kept_def)
qed

lemma count_list_0: "k \<notin> set xs \<Longrightarrow> count_list xs k = 0"
  by (induction xs) auto

lemma count_list_pos: "k \<in> set xs \<Longrightarrow> 0 < count_list xs k"
  by (induction xs) auto

lemma count_list_distinct: "distinct xs \<Longrightarrow> count_list xs k = (if k \<in> set xs then 1 else 0)"
  by (induction xs) auto

lemma first_listing:
  assumes "k \<in> (\<Union>r \<in> set rs. set (kept options r))"
  shows "\<exists>pre r post. rs = pre @ r # post \<and> k \<in> set (kept options r)
           \<and> (\<forall>p \<in> set pre. k \<notin> set (kept options p))
           \<and> hd (listings k (contributions options rs)) = r"
  using assms
proof (induction rs)
  case Nil
  then show ?case by simp
next
  case (Cons r rs)
  show ?case
  proof (cases "k \<in> set (kept options r)")
    case True
    then obtain n where n: "count_list (kept options r) k = Suc n"
      using count_list_pos[OF True] by (cases "count_list (kept options r) k") auto
    have "hd (listings k (contributions options (r # rs))) = r"
      by (simp add: listings_contributions n)
    with True show ?thesis by (intro exI[of _ "[]"] exI[of _ r] exI[of _ rs]) simp
  next
    case False
    then have "k \<in> (\<Union>r \<in> set rs. set (kept options r))" using Cons.prems by simp
    from Cons.IH[OF this] obtain pre r' post where p: "rs = pre @ r' # post"
      "k \<in> set (kept options r')" "\<forall>p \<in> set pre. k \<notin> set (kept options p)"
      "hd (listings k (contributions options rs)) = r'" by blast
    have "hd (listings k (contributions options (r # rs))) = r'"
      using p(4) False by (simp add: listings_contributions count_list_0)
    with p False show ?thesis
      by (intro exI[of _ "r # pre"] exI[of _ r'] exI[of _ post]) simp
  qed
qed

lemma generate_entry:
  assumes "generateGroceryList model cmp ids options = Inr g" "map model ids = map Some rs"
    and "map_of (ingredients g) k = Some e"
  shows "k \<in> (\<Union>r \<in> set rs. set (kept options r))"
    and "e = entryFor options (contributions options rs) k"
proof -
  from generate_Inr[OF assms(1)] obtain rs' where rs': "map model ids = map Some rs'"
    "agrees options (contributions options rs') (ingredients g)" by blast
  have "map Some rs' = map Some rs" using rs'(1) assms(2) by simp
  then have "rs' = rs" by (simp add: inj_map_eq_map)
  then have ag: "agrees options (contributions options rs) (ingredients g)" using rs'(2) by simp
  have "(k, e) \<in> set (ingredients g)" using assms(3) by (rule map_of_SomeD)
  from agrees_entry[OF ag this]
  show "k \<in> (\<Union>r \<in> set rs. set (kept options r))"
    and "e = entryFor options (contributions options rs) k"
    by (simp_all add: contributions_keys)
qed

lemma recipes_entryFor:
  "recipes (entryFor options (contributions options rs) k)
     = concat (map (\<lambda>r. replicate (count_list (kept options r) k) (refOf r)) rs)"
  by (simp add: entryFor_def Let_def listings_contributions map_concat comp_def)

lemma length_concat_replicate:
  "length (concat (map (\<lambda>r. replicate (f r) (h r)) rs)) = sum_list (map f rs)"
  by (induction rs) auto


lemma generate_entryOf:
  assumes "map model ids = map Some rs"
    and "\<forall>r \<in> set rs. \<forall>i \<in> set (kept options r). i \<notin> set objectPrototypeKeys"
  shows "entryOf (generateGroceryList model cmp ids options) k
           = (if k \<in> (\<Union>r \<in> set rs. set (kept options r))
              then Some (entryFor options (contributions options rs) k) else None)"
proof -
  from generate_total[OF assms] obtain g where
    g: "generateGroceryList model cmp ids options = Inr g" by blast
  from generate_Inr[OF g] obtain rs' where rs': "map model ids = map Some rs'"
    "agrees options (contributions options rs') (ingredients g)" by blast
  have "map Some rs' = map Some rs" using rs'(1) assms(1) by simp
  then have "rs' = rs" by (simp add: inj_map_eq_map)
  then have "map_of (ingredients g) k
      = (if k \<in> fst ` set (contributions options rs)
         then Some (entryFor options (contributions options rs) k) else None)"
    using rs'(2) by (simp add: agrees_def)
  then show ?thesis by (simp add: entryOf_def g contributions_keys)
qed

lemma example_31: "map exampleModel [3, 1] = map Some
   [\<lparr>recipe_id = 3, recipe_name = ''Egg salad'', recipe_servings = 3,
              recipe_cookingTime = 15, recipe_ingredients = [''eggs'', ''salt'', ''eggs'']\<rparr>,
    \<lparr>recipe_id = 1, recipe_name = ''Omelet'', recipe_servings = 2,
              recipe_cookingTime = 10, recipe_ingredients = [''eggs'', ''cheese'', ''butter'']\<rparr>]"
  by (simp add: exampleModel_def)

lemma example_11: "map exampleModel [1, 1] = map Some
   [\<lparr>recipe_id = 1, recipe_name = ''Omelet'', recipe_servings = 2,
              recipe_cookingTime = 10, recipe_ingredients = [''eggs'', ''cheese'', ''butter'']\<rparr>,
    \<lparr>recipe_id = 1, recipe_name = ''Omelet'', recipe_servings = 2,
              recipe_cookingTime = 10, recipe_ingredients = [''eggs'', ''cheese'', ''butter'']\<rparr>]"
  by (simp add: exampleModel_def)

lemma processRecipes_reached:
  assumes "processRecipes model options gl0 pre = Inr gl" "model rid = None"
  shows "processRecipes model options gl0 (pre @ rid # post) = Inl (RecipeNotFound rid)"
  using assms by (simp add: processRecipes_append getRecipeById_def)

lemma toDouble_2: "toDouble 2 = Fin 2"
  using toDouble_int[of 2] by simp

lemma toDouble_4: "toDouble 4 = Fin 4"
  using toDouble_int[of 4] by simp

lemma toDouble_200: "toDouble 200 = Fin 200"
  using toDouble_int[of 200] by simp

lemma toDouble_400: "toDouble 400 = Fin 400"
  using toDouble_int[of 400] by simp

lemma lower_butter: "toLowerCase ''butter'' = ''butter''"
  by (simp add: toLowerCase_def toLowerChar_def)

lemma butter_base:
  "js_get baseQuantities ''butter''
     = Own \<lparr>amount = Fin 100, q_unit = Some ''g'', q_notes = Some ''Unsalted preferred''\<rparr>"
  by (simp add: js_get_def baseQuantities_def)

lemma butter_times_2: "amount (calculateIngredientQuantity ''butter'' (Fin 2)) = Fin 200"
  by (simp add: calculateIngredientQuantity_def lower_butter butter_base toDouble_200)

lemma butter_times_4: "amount (calculateIngredientQuantity ''butter'' (Fin 4)) = Fin 400"
  by (simp add: calculateIngredientQuantity_def lower_butter butter_base toDouble_400)


lemma set_insertEntry: "set (insertEntry cmp x ys) = insert x (set ys)"
  by (induction ys) auto

text \<open>
  Insertion by the comparator keeps a list sorted in the order of the comparator, if the
  comparator is consistent.
\<close>

lemma sorted_wrt_insertEntry:
  assumes "\<forall>a b. (cmp a b < 0) = (0 < cmp b a)"
    and "\<forall>a b c. cmp a b \<le> 0 \<and> cmp b c \<le> 0 \<longrightarrow> cmp a c \<le> 0"
    and "sorted_wrt (\<lambda>a b. cmp (name a) (name b) \<le> 0) ys"
  shows "sorted_wrt (\<lambda>a b. cmp (name a) (name b) \<le> 0) (insertEntry cmp x ys)"
  using assms(3)
proof (induction ys)
  case Nil
  show ?case by simp
next
  case (Cons y ys)
  have ys: "sorted_wrt (\<lambda>a b. cmp (name a) (name b) \<le> 0) ys"
    and y: "\<forall>z \<in> set ys. cmp (name y) (name z) \<le> 0" using Cons.prems by simp_all
  show ?case
  proof (cases "cmp (name x) (name y) < 0")
    case True
    then have xy: "cmp (name x) (name y) \<le> 0" by simp
    have "\<forall>z \<in> set ys. cmp (name x) (name z) \<le> 0"
    proof
      fix z assume "z \<in> set ys"
      with y have "cmp (name y) (name z) \<le> 0" by simp
      with xy assms(2) show "cmp (name x) (name z) \<le> 0" by blast
    qed
    with xy True Cons.prems show ?thesis by simp
  next
    case False
    from assms(1) have "(cmp (name x) (name y) < 0) = (0 < cmp (name y) (name x))" by blast
    with False have yx: "cmp (name y) (name x) \<le> 0" by simp
    have "sorted_wrt (\<lambda>a b. cmp (name a) (name b) \<le> 0) (insertEntry cmp x ys)"
      using ys by (rule Cons.IH)
    with False yx y show ?thesis by (simp add: set_insertEntry)
  qed
qed

lemma sorted_wrt_Array_sort_aux:
  assumes "\<forall>a b. (cmp a b < 0) = (0 < cmp b a)"
    and "\<forall>a b c. cmp a b \<le> 0 \<and> cmp b c \<le> 0 \<longrightarrow> cmp a c \<le> 0"
    and "sorted_wrt (\<lambda>a b. cmp (name a) (name b) \<le> 0) acc"
  shows "sorted_wrt (\<lambda>a b. cmp (name a) (name b) \<le> 0)
           (foldl (\<lambda>acc x. insertEntry cmp x acc) acc xs)"
  using assms(3)
proof (induction xs arbitrary: acc)
  case Nil
  then show ?case by simp
next
  case (Cons x xs)
  from sorted_wrt_insertEntry[OF assms(1,2) Cons.prems]
  have "sorted_wrt (\<lambda>a b. cmp (name a) (name b) \<le> 0) (insertEntry cmp x acc)" .
  from Cons.IH[OF this] show ?case by simp
qed

lemma sorted_wrt_Array_sort:
  assumes "\<forall>a b. (cmp a b < 0) = (0 < cmp b a)"
    and "\<forall>a b c. cmp a b \<le> 0 \<and> cmp b c \<le> 0 \<longrightarrow> cmp a c \<le> 0"
  shows "sorted_wrt (\<lambda>a b. cmp (name a) (name b) \<le> 0) (Array_sort cmp xs)"
  unfolding Array_sort_def by (rule sorted_wrt_Array_sort_aux[OF assms]) simp

text \<open>The two sample comparators are consistent.\<close>

lemma lowerCompare_consistent:
  "\<forall>a b. (lowerCompare a b < 0) = (0 < lowerCompare b a)"
  "\<forall>a b c. lowerCompare a b \<le> 0 \<and> lowerCompare b c \<le> 0 \<longrightarrow> lowerCompare a c \<le> 0"
  by (auto simp: lowerCompare_def split: if_splits)

lemma collationCompare_consistent:
  "\<forall>a b. (collationCompare a b < 0) = (0 < collationCompare b a)"
  "\<forall>a b c. collationCompare a b \<le> 0 \<and> collationCompare b c \<le> 0
     \<longrightarrow> collationCompare a c \<le> 0"
  by (auto simp: collationCompare_def split: if_splits)

lemma baseFor_amount:
  "amount (baseFor n) \<in> set (map Fin [1, 2, 6, 100, 200, 250, 500])"
proof (cases "map_of baseQuantities (toLowerCase n)")
  case None
  then show ?thesis by (simp add: baseFor_def defaultQuantity_def)
next
  case (Some b)
  then have "(toLowerCase n, b) \<in> set baseQuantities" by (rule map_of_SomeD)
  then have "amount b \<in> set (map Fin [1, 2, 6, 100, 200, 250, 500])"
    unfolding baseQuantities_def by auto
  with Some show ?thesis by (simp add: baseFor_def)
qed

lemma baseAmount_int:
  "\<exists>k. 1 \<le> k \<and> k \<le> 500 \<and> amount (baseFor n) = Fin (of_int k) \<and> baseAmount n = of_int k"
proof -
  from baseFor_amount[of n] consider "amount (baseFor n) = Fin 1" | "amount (baseFor n) = Fin 2"
    | "amount (baseFor n) = Fin 6" | "amount (baseFor n) = Fin 100" | "amount (baseFor n) = Fin 200"
    | "amount (baseFor n) = Fin 250" | "amount (baseFor n) = Fin 500" by auto
  then show ?thesis
  proof cases
    case 1 then show ?thesis by (intro exI[of _ 1]) (simp add: baseAmount_def)
  next
    case 2 then show ?thesis by (intro exI[of _ 2]) (simp add: baseAmount_def)
  next
    case 3 then show ?thesis by (intro exI[of _ 6]) (simp add: baseAmount_def)
  next
    case 4 then show ?thesis by (intro exI[of _ 100]) (simp add: baseAmount_def)
  next
    case 5 then show ?thesis by (intro exI[of _ 200]) (simp add: baseAmount_def)
  next
    case 6 then show ?thesis by (intro exI[of _ 250]) (simp add: baseAmount_def)
  next
    case 7 then show ?thesis by (intro exI[of _ 500]) (simp add: baseAmount_def)
  qed
qed

lemma calculate_not_inherited:
  assumes "toLowerCase n \<notin> set objectPrototypeKeys"
  shows "calculateIngredientQuantity n m =
           \<lparr>amount = Math_ceil (js_mul (amount (baseFor n)) m),
            q_unit = q_unit (baseFor n), q_notes = q_notes (baseFor n)\<rparr>"
  using assms
  by (cases "map_of baseQuantities (toLowerCase n)")
     (simp_all add: calculateIngredientQuantity_def js_get_def baseFor_def)

lemma calculate_inherited:
  assumes "toLowerCase n \<in> set objectPrototypeKeys"
  shows "calculateIngredientQuantity n m = \<lparr>amount = NaN, q_unit = None, q_notes = None\<rparr>"
proof -
  have "map_of baseQuantities (toLowerCase n) = None"
  proof (cases "map_of baseQuantities (toLowerCase n)")
    case None
    then show ?thesis .
  next
    case (Some b)
    then have "(toLowerCase n, b) \<in> set baseQuantities" by (rule map_of_SomeD)
    then have "toLowerCase n \<in> fst ` set baseQuantities" by force
    moreover have "\<forall>k \<in> fst ` set baseQuantities. k \<notin> set objectPrototypeKeys"
      by (simp add: baseQuantities_def objectPrototypeKeys_def)
    ultimately show ?thesis using assms by blast
  qed
  then show ?thesis using assms by (simp add: calculateIngredientQuantity_def js_get_def)
qed

lemma lower_Eggs: "toLowerCase ''Eggs'' = ''eggs''"
  by code_simp

lemma lower_eggs: "toLowerCase ''eggs'' = ''eggs''"
  by (simp add: toLowerCase_def toLowerChar_def)

lemma lower_constructor: "toLowerCase ''constructor'' = ''constructor''"
  by (simp add: toLowerCase_def toLowerChar_def)

lemma baseFor_eggs:
  "baseFor ''Eggs'' = \<lparr>amount = Fin 6, q_unit = Some ''pieces'', q_notes = Some ''Large eggs''\<rparr>"
  by (simp add: baseFor_def lower_Eggs baseQuantities_def)

lemma toDouble_15: "toDouble 15 = Fin 15"
  using toDouble_int[of 15] by simp

lemma double_5_3: "toDouble (5 / 3) = Fin (7505999378950827 / 4503599627370496)"
  by (rule toDouble_normal[where e = 0 and n = 7505999378950827])
     (simp_all add: roundHalfEven_near)

lemma double_6_times: "toDouble (6 * (7505999378950827 / 4503599627370496)) = Fin 10"
  by (rule toDouble_normal[where e = 3 and n = 5629499534213120])
     (simp_all add: roundHalfEven_near)

lemma double_11_10: "toDouble (11 / 10) = Fin (2476979795053773 / 2251799813685248)"
  by (rule toDouble_normal[where e = 0 and n = 4953959590107546])
     (simp_all add: roundHalfEven_near)

lemma double_100_times:
  "toDouble (100 * (2476979795053773 / 2251799813685248))
     = Fin (7740561859543041 / 70368744177664)"
  by (rule toDouble_normal[where e = 6 and n = 7740561859543041])
     (simp_all add: roundHalfEven_near)

lemma eggs_base:
  "js_get baseQuantities ''eggs''
     = Own \<lparr>amount = Fin 6, q_unit = Some ''pieces'', q_notes = Some ''Large eggs''\<rparr>"
  by (simp add: js_get_def baseQuantities_def)


subsection \<open>Facts about the cost estimator\<close>

lemma toDouble_half:
  assumes "0 \<le> T" "T < 2 ^ 53"
  shows "toDouble (of_int T / 2) = Fin (of_int T / 2)"
proof (cases "T = 0")
  case True
  then show ?thesis by (simp add: toDouble_def)
next
  case False
  then have p: "0 < T" using assms(1) by simp
  have "(of_int T :: rat) < of_int (2 ^ 53)" using assms(2) by (simp only: of_int_less_iff)
  then have "(of_int T :: rat) < power_int 2 53" by simp
  moreover have "power_int (2::rat) 53 \<le> power_int 2 1025"
    by (rule power_int_increasing) simp_all
  ultimately have "(of_int T :: rat) < power_int 2 1025" by (rule less_le_trans)
  moreover have "power_int (2::rat) 1025 = 2 * power_int 2 1024"
    using power_int_add[of "2::rat" 1 1024] by simp
  ultimately have "(of_int T :: rat) < 2 * power_int 2 1024" by (simp only:)
  then have "of_int T * power_int 2 (- 1) < power_int (2::rat) 1024"
    by (simp add: power_int_minus field_simps)
  from toDouble_exact[OF p assms(2) _ this] show ?thesis
    by (simp add: power_int_minus field_simps)
qed

lemma priceOf_half: "\<exists>P. 2 \<le> P \<and> P \<le> 12 \<and> priceOf k = of_int P / 2"
proof (cases "map_of averagePrices (toLowerCase k)")
  case None
  then show ?thesis by (intro exI[of _ 5]) (simp add: priceOf_def)
next
  case (Some p)
  then have "(toLowerCase k, p) \<in> set averagePrices" by (rule map_of_SomeD)
  then have "p \<in> set [7 / 2, 2, 5, 4, 5 / 2, 6, 3 / 2, 1, 3]"
    unfolding averagePrices_def by auto
  then consider "p = 7 / 2" | "p = 2" | "p = 5" | "p = 4" | "p = 5 / 2" | "p = 6" | "p = 3 / 2"
    | "p = 1" | "p = 3" by auto
  then have "\<exists>P. 2 \<le> P \<and> P \<le> 12 \<and> p = of_int P / 2"
  proof cases
    case 1 then show ?thesis by (intro exI[of _ 7]) simp
  next
    case 2 then show ?thesis by (intro exI[of _ 4]) simp
  next
    case 3 then show ?thesis by (intro exI[of _ 10]) simp
  next
    case 4 then show ?thesis by (intro exI[of _ 8]) simp
  next
    case 5 then show ?thesis by (intro exI[of _ 5]) simp
  next
    case 6 then show ?thesis by (intro exI[of _ 12]) simp
  next
    case 7 then show ?thesis by (intro exI[of _ 3]) simp
  next
    case 8 then show ?thesis by (intro exI[of _ 2]) simp
  next
    case 9 then show ?thesis by (intro exI[of _ 6]) simp
  qed
  with Some show ?thesis by (simp add: priceOf_def)
qed

lemma addPrice_inherited:
  assumes "toLowerCase k \<in> set objectPrototypeKeys"
  shows "addPrice c k = Text"
proof -
  have "map_of averagePrices (toLowerCase k) = None"
  proof (cases "map_of averagePrices (toLowerCase k)")
    case None
    then show ?thesis .
  next
    case (Some b)
    then have "(toLowerCase k, b) \<in> set averagePrices" by (rule map_of_SomeD)
    then have "toLowerCase k \<in> fst ` set averagePrices" by force
    moreover have "\<forall>k \<in> fst ` set averagePrices. k \<notin> set objectPrototypeKeys"
      by (simp add: averagePrices_def objectPrototypeKeys_def)
    ultimately show ?thesis using assms by blast
  qed
  then show ?thesis using assms by (simp add: addPrice_def js_get_def)
qed

lemma addPrice_number:
  assumes "toLowerCase k \<notin> set objectPrototypeKeys"
  shows "addPrice (Number (Fin t)) k = Number (toDouble (t + priceOf k))"
  using assms
  by (cases "map_of averagePrices (toLowerCase k)")
     (simp_all add: addPrice_def js_get_def priceOf_def)

lemma cost_loop:
  assumes "\<forall>k \<in> set ks. toLowerCase k \<notin> set objectPrototypeKeys"
    and "0 \<le> T" "T + 12 * int (length ks) < 2 ^ 53"
  shows "\<exists>T'. 0 \<le> T' \<and> T' \<le> T + 12 * int (length ks)
           \<and> of_int T / 2 + sum_list (map priceOf ks) = of_int T' / 2
           \<and> foldl addPrice (Number (Fin (of_int T / 2))) ks = Number (Fin (of_int T' / 2))"
  using assms
proof (induction ks arbitrary: T)
  case Nil
  then show ?case by (intro exI[of _ T]) simp
next
  case (Cons k ks)
  from priceOf_half[of k] obtain P where P: "2 \<le> P" "P \<le> 12" "priceOf k = of_int P / 2" by blast
  have s: "of_int T / 2 + priceOf k = (of_int (T + P) :: rat) / 2" by (simp add: P(3) field_simps)
  have b: "0 \<le> T + P" "T + P < 2 ^ 53" using Cons.prems(2,3) P(1,2) by simp_all
  have "addPrice (Number (Fin (of_int T / 2))) k = Number (toDouble (of_int T / 2 + priceOf k))"
    using Cons.prems(1) by (simp add: addPrice_number)
  also have "\<dots> = Number (Fin (of_int (T + P) / 2))"
    unfolding s using toDouble_half[OF b] by simp
  finally have st: "addPrice (Number (Fin (of_int T / 2))) k = Number (Fin (of_int (T + P) / 2))" .
  have "T + P + 12 * int (length ks) < 2 ^ 53" using Cons.prems(3) P(2) by simp
  from Cons.IH[OF _ b(1) this] Cons.prems(1)
  obtain T' where T': "0 \<le> T'" "T' \<le> T + P + 12 * int (length ks)"
    "of_int (T + P) / 2 + sum_list (map priceOf ks) = of_int T' / 2"
    "foldl addPrice (Number (Fin (of_int (T + P) / 2))) ks = Number (Fin (of_int T' / 2))"
    by auto
  show ?case
  proof (intro exI[of _ T'] conjI)
    show "0 \<le> T'" by (rule T'(1))
    show "T' \<le> T + 12 * int (length (k # ks))" using T'(2) P(2) by simp
    have "of_int T / 2 + sum_list (map priceOf (k # ks))
            = (of_int T / 2 + priceOf k) + sum_list (map priceOf ks)" by simp
    also have "\<dots> = of_int (T + P) / 2 + sum_list (map priceOf ks)" by (simp only: s)
    also have "\<dots> = of_int T' / 2" by (rule T'(3))
    finally show "of_int T / 2 + sum_list (map priceOf (k # ks)) = of_int T' / 2" .
    show "foldl addPrice (Number (Fin (of_int T / 2))) (k # ks) = Number (Fin (of_int T' / 2))"
      using st T'(4) by simp
  qed
qed

lemma roundCost_half:
  assumes "0 \<le> T" "T < 2 ^ 47"
  shows "roundCost (Number (Fin (of_int T / 2))) = Fin (of_int T / 2)"
proof (cases "T = 0")
  case True
  have "\<lfloor>(1::rat) / 2\<rfloor> = 0" by (simp add: floor_eq_iff)
  with True show ?thesis by (simp add: roundCost_def toDouble_def)
next
  case False
  then have p: "0 < T * 50" using assms(1) by simp
  have l: "T * 50 < 2 ^ 53" using assms(2) by simp
  have m: "toDouble (of_int T / 2 * 100) = Fin (of_int (T * 50))"
    using toDouble_int[OF p l] by (simp add: field_simps)
  have f: "\<lfloor>(of_int (T * 50) :: rat) + 1 / 2\<rfloor> = T * 50" by linarith
  have d: "(of_int (T * 50) :: rat) / 100 = of_int T / 2" by simp
  have h: "toDouble (of_int T / 2) = Fin (of_int T / 2)"
    using assms by (intro toDouble_half) simp_all
  show ?thesis
    unfolding roundCost_def cost.case js_mul.simps m Math_round.simps f
    by (simp only: js_div.simps d h) simp
qed

lemma sum_list_perm: "mset xs = mset ys \<Longrightarrow> sum_list (map f xs) = sum_list (map (f :: 'a \<Rightarrow> rat) ys)"
  by (metis mset_map sum_mset_sum_list)

lemma cost_sum:
  assumes "\<forall>k \<in> fst ` set obj. toLowerCase k \<notin> set objectPrototypeKeys"
    and "length obj < 2 ^ 40"
  shows "estimateTotalCost obj = Fin (sum_list (map (\<lambda>kv. priceOf (fst kv)) obj))"
proof -
  have ms: "mset (Object_keys obj) = mset (map fst obj)"
    using mset_Object_entries[of obj] unfolding Object_keys_def by (metis mset_map)
  then have se: "set (Object_keys obj) = fst ` set obj" by (metis mset_eq_setD set_map)
  have le: "length (Object_keys obj) = length obj"
    by (simp add: Object_keys_def length_Object_entries)
  have a: "\<forall>k \<in> set (Object_keys obj). toLowerCase k \<notin> set objectPrototypeKeys"
    using assms(1) se by simp
  have "int (length obj) < 2 ^ 40" using assms(2) by (metis of_nat_less_iff of_nat_numeral of_nat_power)
  then have b: "0 + 12 * int (length (Object_keys obj)) < 2 ^ 47" by (simp add: le)
  then have b': "0 + 12 * int (length (Object_keys obj)) < 2 ^ 53" by simp
  from cost_loop[OF a _ b'] obtain T' where T': "0 \<le> T'"
    "T' \<le> 0 + 12 * int (length (Object_keys obj))"
    "of_int 0 / 2 + sum_list (map priceOf (Object_keys obj)) = of_int T' / 2"
    "foldl addPrice (Number (Fin (of_int 0 / 2))) (Object_keys obj) = Number (Fin (of_int T' / 2))"
    by auto
  have "T' < 2 ^ 47" using T'(2) b by linarith
  from roundCost_half[OF T'(1) this] T'(4)
  have "estimateTotalCost obj = Fin (of_int T' / 2)" by (simp add: estimateTotalCost_def)
  also have "of_int T' / 2 = sum_list (map priceOf (Object_keys obj))" using T'(3) by simp
  also have "\<dots> = sum_list (map priceOf (map fst obj))" using ms by (rule sum_list_perm)
  finally show ?thesis by (simp add: comp_def)
qed


lemma addPrice_Text: "addPrice Text k = Text"
  by (simp add: addPrice_def split: property.splits)

lemma foldl_addPrice_Text: "foldl addPrice Text ks = Text"
  by (induction ks) (simp_all add: addPrice_Text)

lemma cost_loop_inherited:
  assumes "\<exists>k \<in> set ks. toLowerCase k \<in> set objectPrototypeKeys"
  shows "foldl addPrice c ks = Text"
  using assms
proof (induction ks arbitrary: c)
  case Nil
  then show ?case by simp
next
  case (Cons k ks)
  show ?case
  proof (cases "toLowerCase k \<in> set objectPrototypeKeys")
    case True
    then show ?thesis by (simp add: addPrice_inherited foldl_addPrice_Text)
  next
    case False
    with Cons.prems have "\<exists>k \<in> set ks. toLowerCase k \<in> set objectPrototypeKeys" by simp
    from Cons.IH[OF this] show ?thesis by simp
  qed
qed

lemma cost_inherited:
  assumes "\<exists>k \<in> fst ` set obj. toLowerCase k \<in> set objectPrototypeKeys"
  shows "estimateTotalCost obj = NaN"
proof -
  have "mset (Object_keys obj) = mset (map fst obj)"
    using mset_Object_entries[of obj] unfolding Object_keys_def by (metis mset_map)
  then have "set (Object_keys obj) = fst ` set obj" by (metis mset_eq_setD set_map)
  with assms have "\<exists>k \<in> set (Object_keys obj). toLowerCase k \<in> set objectPrototypeKeys" by simp
  from cost_loop_inherited[OF this] show ?thesis
    by (simp add: estimateTotalCost_def roundCost_def)
qed

lemma generate_cost:
  assumes "generateGroceryList model cmp ids options = Inr g"
  shows "estimatedCost (summary g) = estimateTotalCost (ingredients g)"
proof -
  from assms obtain gl where p: "processRecipes model options (emptyGroceryList ids) ids = Inr gl"
    by (cases "processRecipes model options (emptyGroceryList ids) ids")
       (auto simp: generateGroceryList_def)
  from assms p obtain cats where o: "organize [] (map snd (Object_entries (ingredients gl))) = Inr cats"
    by (cases "organize [] (map snd (Object_entries (ingredients gl)))")
       (auto simp: generateGroceryList_def)
  show ?thesis using assms p o by (auto simp: generateGroceryList_def)
qed

lemma lower_Constructor: "toLowerCase ''Constructor'' = ''constructor''"
  by code_simp

lemma lower_unknown: "toLowerCase ''unknown-item'' = ''unknown-item''"
  by (simp add: toLowerCase_def toLowerChar_def)

lemma cost_examples:
  "estimateTotalCost ([] :: (string \<times> 'v) list) = Fin 0
   \<and> estimateTotalCost [(''unknown-item'', v)] = Fin (5 / 2)
   \<and> estimateTotalCost [(''eggs'', v), (''Milk'', w)] = Fin 6"
proof (intro conjI)
  show "estimateTotalCost ([] :: (string \<times> 'v) list) = Fin 0"
    using cost_sum[of "[] :: (string \<times> 'v) list"] by simp
  have "\<forall>k \<in> fst ` set [(''unknown-item'', v)]. toLowerCase k \<notin> set objectPrototypeKeys"
    by (simp add: lower_unknown objectPrototypeKeys_def)
  from cost_sum[OF this] show "estimateTotalCost [(''unknown-item'', v)] = Fin (5 / 2)"
    by (simp add: priceOf_def lower_unknown averagePrices_def)
  have lm: "toLowerCase ''Milk'' = ''milk''" by code_simp
  have "\<forall>k \<in> fst ` set [(''eggs'', v), (''Milk'', w)]. toLowerCase k \<notin> set objectPrototypeKeys"
    by (simp add: lower_eggs lm objectPrototypeKeys_def)
  from cost_sum[OF this] show "estimateTotalCost [(''eggs'', v), (''Milk'', w)] = Fin 6"
    by (simp add: priceOf_def lower_eggs lm averagePrices_def)
qed


subsection \<open>The worked example, evaluated\<close>

text \<open>
  The two recipes Omelet (eggs, cheese, butter) and Toast (bread, butter) of the worked example,
  without options and with a comparator that orders the lower-cased names: the list has four
  ingredients, butter carries both recipes, and the bucket of dairy products comes out sorted.
\<close>

lemma cat_eggs: "categorizeIngredient ''eggs'' = ''protein''" by code_simp
lemma cat_cheese: "categorizeIngredient ''cheese'' = ''dairy''" by code_simp
lemma cat_butter: "categorizeIngredient ''butter'' = ''dairy''" by code_simp
lemma cat_bread: "categorizeIngredient ''bread'' = ''bread''" by code_simp

lemma small_doubles:
  "toDouble 1 = Fin 1" "toDouble 6 = Fin 6" "toDouble 100 = Fin 100" "toDouble 200 = Fin 200"
  "toDouble 10 = Fin 10" "toDouble 15 = Fin 15"
  using toDouble_int[of 1] toDouble_int[of 6] toDouble_int[of 100] toDouble_int[of 200]
    toDouble_int[of 10] toDouble_int[of 15] by simp_all

lemma q_eggs: "calculateIngredientQuantity ''eggs'' (Fin 1)
   = \<lparr>amount = Fin 6, q_unit = Some ''pieces'', q_notes = Some ''Large eggs''\<rparr>"
  by (simp add: calculateIngredientQuantity_def lower_eggs eggs_base small_doubles)

lemma q_cheese: "calculateIngredientQuantity ''cheese'' (Fin 1)
   = \<lparr>amount = Fin 200, q_unit = Some ''g'', q_notes = Some ''Block or grated''\<rparr>"
  by (simp add: calculateIngredientQuantity_def js_get_def baseQuantities_def toLowerCase_def
      toLowerChar_def small_doubles)

lemma q_butter: "calculateIngredientQuantity ''butter'' (Fin 1)
   = \<lparr>amount = Fin 100, q_unit = Some ''g'', q_notes = Some ''Unsalted preferred''\<rparr>"
  by (simp add: calculateIngredientQuantity_def lower_butter butter_base small_doubles)

lemma q_bread: "calculateIngredientQuantity ''bread'' (Fin 1)
   = \<lparr>amount = Fin 1, q_unit = Some ''loaf'', q_notes = Some ''Whole grain or white''\<rparr>"
  by (simp add: calculateIngredientQuantity_def js_get_def baseQuantities_def toLowerCase_def
      toLowerChar_def small_doubles)

lemma scenario_processed:
  "processRecipes exampleModel noOptions (emptyGroceryList [1, 2]) [1, 2] =
     Inr \<lparr>list_recipes =
            [\<lparr>info_id = 1, info_name = ''Omelet'', info_servings = 2, info_cookingTime = 10\<rparr>,
             \<lparr>info_id = 2, info_name = ''Toast'', info_servings = 1, info_cookingTime = 5\<rparr>],
          ingredients =
            [(''eggs'', \<lparr>name = ''eggs'', quantity = Fin 6, unit = Some ''pieces'',
                category = ''protein'',
                recipes = [\<lparr>recipeId = 1, recipeName = ''Omelet''\<rparr>],
                notes' = Some ''Large eggs''\<rparr>),
             (''cheese'', \<lparr>name = ''cheese'', quantity = Fin 200, unit = Some ''g'',
                category = ''dairy'',
                recipes = [\<lparr>recipeId = 1, recipeName = ''Omelet''\<rparr>],
                notes' = Some ''Block or grated''\<rparr>),
             (''butter'', \<lparr>name = ''butter'', quantity = Fin 100, unit = Some ''g'',
                category = ''dairy'',
                recipes = [\<lparr>recipeId = 1, recipeName = ''Omelet''\<rparr>,
                           \<lparr>recipeId = 2, recipeName = ''Toast''\<rparr>],
                notes' = Some ''Unsalted preferred''\<rparr>),
             (''bread'', \<lparr>name = ''bread'', quantity = Fin 1, unit = Some ''loaf'',
                category = ''bread'',
                recipes = [\<lparr>recipeId = 2, recipeName = ''Toast''\<rparr>],
                notes' = Some ''Whole grain or white''\<rparr>)],
          categorizedIngredients = [],
          summary = \<lparr>totalRecipes = 2, totalIngredients = 0, estimatedCost = Fin 0,
                      estimatedTime = Fin 15\<rparr>\<rparr>"
  by (simp add: exampleModel_def noOptions_def emptyGroceryList_def getRecipeById_def
      addIngredient_def js_get_def js_set_def objectPrototypeKeys_def servingMultiplier_def
      q_eggs q_cheese q_butter q_bread cat_eggs cat_cheese cat_butter cat_bread
      lower_eggs lower_butter small_doubles Let_def)

lemma lower_names:
  "toLowerCase ''cheese'' = ''cheese''" "toLowerCase ''bread'' = ''bread''"
  by (simp_all add: toLowerCase_def toLowerChar_def)

lemma butter_before_cheese: "lowerCompare ''butter'' ''cheese'' < 0"
  unfolding lowerCompare_def lower_butter lower_names by code_simp

lemma scenario_cost:
  "estimateTotalCost [(''eggs'', a), (''cheese'', b), (''butter'', c), (''bread'', d)] = Fin 15"
proof -
  have "\<forall>k \<in> fst ` set [(''eggs'', a), (''cheese'', b), (''butter'', c), (''bread'', d)].
          toLowerCase k \<notin> set objectPrototypeKeys"
    by (simp add: lower_eggs lower_butter lower_names objectPrototypeKeys_def)
  from cost_sum[OF this] show ?thesis
    by (simp add: priceOf_def lower_eggs lower_butter lower_names averagePrices_def)
qed

lemma scenario_result:
  "generateGroceryList exampleModel lowerCompare [1, 2] noOptions =
     Inr \<lparr>list_recipes =
            [\<lparr>info_id = 1, info_name = ''Omelet'', info_servings = 2, info_cookingTime = 10\<rparr>,
             \<lparr>info_id = 2, info_name = ''Toast'', info_servings = 1, info_cookingTime = 5\<rparr>],
          ingredients =
            [(''eggs'', \<lparr>name = ''eggs'', quantity = Fin 6, unit = Some ''pieces'',
                category = ''protein'',
                recipes = [\<lparr>recipeId = 1, recipeName = ''Omelet''\<rparr>],
                notes' = Some ''Large eggs''\<rparr>),
             (''cheese'', \<lparr>name = ''cheese'', quantity = Fin 200, unit = Some ''g'',
                category = ''dairy'',
                recipes = [\<lparr>recipeId = 1, recipeName = ''Omelet''\<rparr>],
                notes' = Some ''Block or grated''\<rparr>),
             (''butter'', \<lparr>name = ''butter'', quantity = Fin 100, unit = Some ''g'',
                category = ''dairy'',
                recipes = [\<lparr>recipeId = 1, recipeName = ''Omelet''\<rparr>,
                           \<lparr>recipeId = 2, recipeName = ''Toast''\<rparr>],
                notes' = Some ''Unsalted preferred''\<rparr>),
             (''bread'', \<lparr>name = ''bread'', quantity = Fin 1, unit = Some ''loaf'',
                category = ''bread'',
                recipes = [\<lparr>recipeId = 2, recipeName = ''Toast''\<rparr>],
                notes' = Some ''Whole grain or white''\<rparr>)],
          categorizedIngredients =
            [(''protein'',
              [\<lparr>name = ''eggs'', quantity = Fin 6, unit = Some ''pieces'',
                category = ''protein'',
                recipes = [\<lparr>recipeId = 1, recipeName = ''Omelet''\<rparr>],
                notes' = Some ''Large eggs''\<rparr>]),
             (''dairy'',
              [\<lparr>name = ''butter'', quantity = Fin 100, unit = Some ''g'',
                category = ''dairy'',
                recipes = [\<lparr>recipeId = 1, recipeName = ''Omelet''\<rparr>,
                           \<lparr>recipeId = 2, recipeName = ''Toast''\<rparr>],
                notes' = Some ''Unsalted preferred''\<rparr>,
               \<lparr>name = ''cheese'', quantity = Fin 200, unit = Some ''g'',
                category = ''dairy'',
                recipes = [\<lparr>recipeId = 1, recipeName = ''Omelet''\<rparr>],
                notes' = Some ''Block or grated''\<rparr>]),
             (''bread'',
              [\<lparr>name = ''bread'', quantity = Fin 1, unit = Some ''loaf'',
                category = ''bread'',
                recipes = [\<lparr>recipeId = 2, recipeName = ''Toast''\<rparr>],
                notes' = Some ''Whole grain or white''\<rparr>])],
          summary = \<lparr>totalRecipes = 2, totalIngredients = 4, estimatedCost = Fin 15,
                      estimatedTime = Fin 15\<rparr>\<rparr>"
  unfolding generateGroceryList_def scenario_processed
  by (simp add: Object_entries_def Object_keys_def isArrayIndex_def isDigit_def
      addToCategory_def js_get_def js_set_def objectPrototypeKeys_def Array_sort_def
      butter_before_cheese scenario_cost Let_def)


subsection \<open>Further facts about the aggregated list\<close>

text \<open>
  A name whose lower-cased form is an element of the exclusion list has no entry in a
  successful result, whichever recipes list it: it is no key of \<^verbatim>\<open>ingredients\<close>, it is in no
  bucket, and \<^verbatim>\<open>totalIngredients\<close> counts the keys without it.
\<close>

lemma excluded_lowercase_omitted:
  assumes "generateGroceryList model cmp ids options = Inr g"
    and "toLowerCase n \<in> set (excludeIngredients options)"
  shows "n \<notin> set (map fst (ingredients g))
       \<and> (\<forall>cb \<in> set (categorizedIngredients g). n \<notin> name ` set (snd cb))
       \<and> totalIngredients (summary g) = card (set (map fst (ingredients g)) - {n})"
proof -
  from generate_Inr[OF assms(1)] obtain rs where
    ag: "agrees options (contributions options rs) (ingredients g)"
    and t: "totalIngredients (summary g) = length (ingredients g)" by blast
  have d: "distinct (map fst (ingredients g))" using ag by (simp add: agrees_def)
  have "n \<notin> (\<Union>r \<in> set rs. set (kept options r))"
    using assms(2) by (simp add: kept_def keptOf_def)
  then have n: "n \<notin> set (map fst (ingredients g))"
    using agrees_keys[OF ag] by (simp add: contributions_keys)
  have b: "\<forall>cb \<in> set (categorizedIngredients g). n \<notin> name ` set (snd cb)"
  proof
    fix cb assume cb: "cb \<in> set (categorizedIngredients g)"
    show "n \<notin> name ` set (snd cb)"
    proof
      assume "n \<in> name ` set (snd cb)"
      then have "n \<in> set (map name (concat (map snd (categorizedIngredients g))))"
        using cb by auto
      then have "n \<in> set (map fst (ingredients g))"
        using generate_bucket_names[OF assms(1)] by (metis mset_eq_setD)
      with n show False by simp
    qed
  qed
  have "card (set (map fst (ingredients g)) - {n}) = length (ingredients g)"
    using distinct_card[OF d] n by simp
  with n b t show ?thesis by simp
qed

text \<open>Recipes 1 and 2 both list \<^verbatim>\<open>butter\<close>; with the exclusion list \<^verbatim>\<open>['butter']\<close> it is gone.\<close>

lemma excluded_lowercase_example:
  "\<exists>g. generateGroceryList exampleModel lowerCompare [1, 2] exclButter = Inr g
       \<and> ''butter'' \<notin> set (map fst (ingredients g))
       \<and> (\<forall>cb \<in> set (categorizedIngredients g). ''butter'' \<notin> name ` set (snd cb))
       \<and> totalIngredients (summary g) = card (set (map fst (ingredients g)) - {''butter''})"
proof -
  let ?rs = "[\<lparr>recipe_id = 1, recipe_name = ''Omelet'', recipe_servings = 2,
              recipe_cookingTime = 10, recipe_ingredients = [''eggs'', ''cheese'', ''butter'']\<rparr>,
    \<lparr>recipe_id = 2, recipe_name = ''Toast'', recipe_servings = 1,
              recipe_cookingTime = 5, recipe_ingredients = [''bread'', ''butter'']\<rparr>]"
  have l: "toLowerCase ''butter'' = ''butter''" by (simp add: toLowerCase_def toLowerChar_def)
  have k: "\<forall>r \<in> set ?rs. \<forall>i \<in> set (kept exclButter r). i \<notin> set objectPrototypeKeys"
    by (auto simp: kept_def keptOf_def exclButter_def objectPrototypeKeys_def)
  from generate_total[OF example_12 k] obtain g where
    g: "generateGroceryList exampleModel lowerCompare [1, 2] exclButter = Inr g" by blast
  have "toLowerCase ''butter'' \<in> set (excludeIngredients exclButter)"
    by (simp add: l exclButter_def)
  from excluded_lowercase_omitted[OF g this] g show ?thesis by blast
qed

text \<open>
  An element of the exclusion list that is not in lower case excludes nothing: the names
  kept are the same with and without it.
\<close>

lemma capitalised_entry_excludes_nothing:
  assumes "toLowerCase x \<noteq> x"
  shows "keptOf (options\<lparr>excludeIngredients := x # excludeIngredients options\<rparr>) is
       = keptOf options is"
proof -
  have "toLowerCase i \<noteq> x" for i
  proof
    assume "toLowerCase i = x"
    then have "toLowerCase x = x" using toLowerCase_idem[of i] by simp
    with assms show False by simp
  qed
  then show ?thesis by (simp add: keptOf_def)
qed

text \<open>A bucket holds the entries of its category, and no others.\<close>

lemma foreign_buckets_filter:
  assumes "bucketsOk cats" "c \<notin> fst ` set cats"
  shows "filter (\<lambda>e. category e = c) (concat (map snd cats)) = []"
  using assms unfolding bucketsOk_def by (induction cats) (auto simp: filter_empty_conv)

lemma bucket_filter:
  assumes "distinct (map fst cats)" "bucketsOk cats" "cb \<in> set cats"
  shows "filter (\<lambda>e. category e = fst cb) (concat (map snd cats)) = snd cb"
  using assms
proof (induction cats)
  case Nil
  then show ?case by simp
next
  case (Cons x cats)
  have ok: "bucketsOk cats" and x: "\<forall>e \<in> set (snd x). category e = fst x"
    using Cons.prems(2) by (simp_all add: bucketsOk_def)
  have d: "distinct (map fst cats)" and nx: "fst x \<notin> fst ` set cats"
    using Cons.prems(1) by simp_all
  show ?case
  proof (cases "cb = x")
    case True
    have "filter (\<lambda>e. category e = fst x) (snd x) = snd x" using x by (simp add: filter_id_conv)
    moreover have "filter (\<lambda>e. category e = fst x) (concat (map snd cats)) = []"
      using ok nx by (rule foreign_buckets_filter)
    ultimately show ?thesis using True by simp
  next
    case False
    then have m: "cb \<in> set cats" using Cons.prems(3) by simp
    then have "fst cb \<in> fst ` set cats" by (rule imageI)
    with nx have "fst cb \<noteq> fst x" by (rule_tac notI) simp
    then have "filter (\<lambda>e. category e = fst cb) (snd x) = []"
      using x by (auto simp: filter_empty_conv)
    with Cons.IH[OF d ok m] show ?thesis by simp
  qed
qed

lemma generate_bucket_contents:
  assumes "generateGroceryList model cmp ids options = Inr g"
    and "cb \<in> set (categorizedIngredients g)"
  shows "mset (snd cb) = mset (filter (\<lambda>e. category e = fst cb) (map snd (ingredients g)))"
proof -
  have "mset (snd cb)
      = filter_mset (\<lambda>e. category e = fst cb) (mset (concat (map snd (categorizedIngredients g))))"
    using bucket_filter[OF generate_buckets(1,2)[OF assms(1)] assms(2)]
    by (metis mset_filter)
  also have "\<dots> = filter_mset (\<lambda>e. category e = fst cb) (mset (map snd (ingredients g)))"
    by (simp only: generate_buckets(3)[OF assms(1)])
  finally show ?thesis by (simp only: mset_filter)
qed

text \<open>
  An identifier that does not resolve: no list is returned, and the exception is the one of
  the lookup when the recipes before it list no name inherited from \<^verbatim>\<open>Object.prototype\<close>.
\<close>

lemma unresolved_recipe_no_list:
  assumes "rid \<in> set ids" "model rid = None"
  shows "\<exists>e. generateGroceryList model cmp ids options = Inl e"
proof (cases "generateGroceryList model cmp ids options")
  case (Inl e)
  then show ?thesis by blast
next
  case (Inr g)
  from generate_Inr[OF Inr] obtain rs where "map model ids = map Some rs" by blast
  then have "model ` set ids = Some ` set rs" by (metis set_map)
  moreover have "None \<in> model ` set ids" using assms by force
  ultimately have False by auto
  then show ?thesis ..
qed

lemma unresolved_recipe_not_found:
  assumes "ids = pre @ rid # post" "model rid = None" "map model pre = map Some rs"
    and "\<forall>r \<in> set rs. \<forall>i \<in> set (kept options r). i \<notin> set objectPrototypeKeys"
  shows "generateGroceryList model cmp ids options = Inl (RecipeNotFound rid)"
proof -
  have a0: "agrees options [] (ingredients (emptyGroceryList ids))"
    by (simp add: emptyGroceryList_def agrees_empty)
  from processRecipes_total[OF a0 assms(3,4)] obtain gl where
    p: "processRecipes model options (emptyGroceryList ids) pre = Inr gl" by blast
  have "processRecipes model options (emptyGroceryList ids) (pre @ rid # post)
          = Inl (RecipeNotFound rid)"
    using p assms(2) by (rule processRecipes_reached)
  then have "processRecipes model options (emptyGroceryList ids) ids = Inl (RecipeNotFound rid)"
    by (simp only: assms(1)[symmetric])
  then show ?thesis by (simp add: generateGroceryList_def)
qed

text \<open>The identifiers 1, 6, 2, of which 6 does not resolve.\<close>

lemma unresolved_recipe_example:
  "generateGroceryList exampleModel cmp [1, 6, 2] noOptions = Inl (RecipeNotFound 6)"
proof -
  have m: "map exampleModel [1] = map Some
     [\<lparr>recipe_id = 1, recipe_name = ''Omelet'', recipe_servings = 2,
              recipe_cookingTime = 10, recipe_ingredients = [''eggs'', ''cheese'', ''butter'']\<rparr>]"
    by (simp add: exampleModel_def)
  have k: "\<forall>r \<in> set [\<lparr>recipe_id = 1, recipe_name = ''Omelet'', recipe_servings = 2,
              recipe_cookingTime = 10, recipe_ingredients = [''eggs'', ''cheese'', ''butter'']\<rparr>].
       \<forall>i \<in> set (kept noOptions r). i \<notin> set objectPrototypeKeys"
    by (auto simp: kept_def keptOf_def noOptions_def objectPrototypeKeys_def)
  have i: "[1, 6, 2] = [1] @ 6 # [2]" by simp
  have n: "exampleModel 6 = None" by (simp add: exampleModel_def)
  from i n m k show ?thesis by (rule unresolved_recipe_not_found)
qed

text \<open>
  The recipe with two kinds of eggs, evaluated. Whatever comparator puts \<^verbatim>\<open>eggs - large\<close>
  before \<^verbatim>\<open>eggs (large)\<close>, the bucket comes out in that order.
\<close>

lemma toDouble_5: "toDouble 5 = Fin 5"
  using toDouble_int[of 5] by simp

lemma egg_names:
  "toLowerCase ''eggs (large)'' = ''eggs (large)''"
  "toLowerCase ''eggs - large'' = ''eggs - large''"
  by (simp_all add: toLowerCase_def toLowerChar_def)

lemma egg_quantities:
  "calculateIngredientQuantity ''eggs (large)'' (Fin 1) = defaultQuantity"
  "calculateIngredientQuantity ''eggs - large'' (Fin 1) = defaultQuantity"
  by (simp_all add: calculateIngredientQuantity_def egg_names js_get_def baseQuantities_def
      objectPrototypeKeys_def defaultQuantity_def small_doubles)

lemma egg_categories:
  "categorizeIngredient ''eggs (large)'' = ''protein''"
  "categorizeIngredient ''eggs - large'' = ''protein''"
  by code_simp+

lemma egg_order:
  "collationCompare ''eggs - large'' ''eggs (large)'' < 0"
  "\<not> ''eggs - large'' < ''eggs (large)''"
  "''eggs (large)'' < ''eggs - large''"
  by (simp_all add: collationCompare_def collationWeight_def toLowerChar_def)

lemma egg_buckets:
  assumes "cmp ''eggs - large'' ''eggs (large)'' < 0"
  shows "bucketNames (generateGroceryList eggModel cmp [1] noOptions)
     = Some [(''protein'', [''eggs - large'', ''eggs (large)''])]"
proof -
  have p: "processRecipes eggModel noOptions (emptyGroceryList [1]) [1] =
     Inr \<lparr>list_recipes =
            [\<lparr>info_id = 1, info_name = ''Egg tasting'', info_servings = 2,
              info_cookingTime = 10\<rparr>],
          ingredients =
            [(''eggs (large)'', \<lparr>name = ''eggs (large)'', quantity = Fin 1, unit = Some ''item'',
                category = ''protein'',
                recipes = [\<lparr>recipeId = 1, recipeName = ''Egg tasting''\<rparr>],
                notes' = Some ''Check recipe for specific amount''\<rparr>),
             (''eggs - large'', \<lparr>name = ''eggs - large'', quantity = Fin 1, unit = Some ''item'',
                category = ''protein'',
                recipes = [\<lparr>recipeId = 1, recipeName = ''Egg tasting''\<rparr>],
                notes' = Some ''Check recipe for specific amount''\<rparr>)],
          categorizedIngredients = [],
          summary = \<lparr>totalRecipes = 1, totalIngredients = 0, estimatedCost = Fin 0,
                      estimatedTime = Fin 10\<rparr>\<rparr>"
    by (simp add: eggModel_def noOptions_def emptyGroceryList_def getRecipeById_def
      addIngredient_def js_get_def js_set_def objectPrototypeKeys_def servingMultiplier_def
      egg_quantities egg_categories egg_names defaultQuantity_def small_doubles Let_def)
  show ?thesis
    unfolding generateGroceryList_def p
    by (simp add: bucketNames_def Object_entries_def isArrayIndex_def isDigit_def
      addToCategory_def js_get_def js_set_def objectPrototypeKeys_def Array_sort_def
      assms Let_def)
qed

text \<open>The name \<^verbatim>\<open>salt\<close> matches no keyword of the three categories before \<^verbatim>\<open>pantry\<close>.\<close>

lemma lower_salt: "toLowerCase ''salt'' = ''salt''"
  by (simp add: toLowerCase_def toLowerChar_def)

lemma salt_no_earlier_match:
  "\<forall>l<3. \<not> keywordMatch ''salt'' (snd (ingredientCategories ! l))"
proof (intro allI impI)
  fix l :: nat assume "l < 3"
  then consider "l = 0" | "l = 1" | "l = 2" by linarith
  then show "\<not> keywordMatch ''salt'' (snd (ingredientCategories ! l))"
  proof cases
    case 1
    have "\<not> list_ex (itemMatches (toLowerCase ''salt'')) (snd (ingredientCategories ! 0))"
      unfolding lower_salt by (simp add: ingredientCategories_def itemMatches_def)
    then show ?thesis
      unfolding 1 using itemMatches_keywordMatch[of "snd (ingredientCategories ! 0)" "''salt''"]
        keywords_lower by (simp add: ingredientCategories_def)
  next
    case 2
    have "\<not> list_ex (itemMatches (toLowerCase ''salt'')) (snd (ingredientCategories ! 1))"
      unfolding lower_salt by (simp add: ingredientCategories_def itemMatches_def)
    then show ?thesis
      unfolding 2 using itemMatches_keywordMatch[of "snd (ingredientCategories ! 1)" "''salt''"]
        keywords_lower by (simp add: ingredientCategories_def)
  next
    case 3
    have "\<not> list_ex (itemMatches (toLowerCase ''salt'')) (snd (ingredientCategories ! 2))"
      unfolding lower_salt by (simp add: ingredientCategories_def itemMatches_def)
    then show ?thesis
      unfolding 3 using itemMatches_keywordMatch[of "snd (ingredientCategories ! 2)" "''salt''"]
        keywords_lower by (simp add: ingredientCategories_def)
  qed
qed


section \<open>The categorizer\<close>

text \<open>
  Claim C6. For every ingredient name, \<^verbatim>\<open>categorizeIngredient\<close> returns the first category, in
  the fixed priority order produce, dairy, protein, pantry, bread, condiments, one of whose
  keywords is a substring of the lower-cased name or has the lower-cased name as a
  substring, and \<^verbatim>\<open>other\<close> when no category matches: the loop of the source computes
  exactly \<open>categorize_spec\<close>, and the table lists the categories in that order. The
  keywords are lower-case already, so matching them against the lower-cased name is the
  case-insensitive match.
\<close>

theorem categorize_first_match:
  "categorizeIngredient n = categorize_spec n
   \<and> map fst ingredientCategories
       = [''produce'', ''dairy'', ''protein'', ''pantry'', ''bread'', ''condiments'']"
  by (simp add: categorizeIngredient_def categorize_spec_def categorizeLoop_find[OF keywords_lower])
     (simp add: ingredientCategories_def)

text \<open>The theorem at the name \<^verbatim>\<open>Cherry Tomato\<close>, which contains the keyword \<^verbatim>\<open>tomato\<close>.\<close>

theorem categorize_first_match_witness:
  "categorize_spec ''Cherry Tomato'' = ''produce''"
  using categorize_first_match [of "''Cherry Tomato''"] categorize_tomato by simp

text \<open>
  Claim C10. The empty name is put into \<^verbatim>\<open>produce\<close>, not \<^verbatim>\<open>other\<close>, since the empty string is
  a substring of every keyword. More generally, let the name be a substring of a keyword of
  the category at position \<open>i\<close> of the priority order. Then the result is the category at
  the first position \<open>j\<close> whose keywords match the name, and \<open>j \<le> i\<close>: never a later
  category, whatever else the name matches there. In particular the result is the category
  at position \<open>i\<close> itself when no category before it matches.
\<close>

theorem categorize_empty_and_priority:
  "categorizeIngredient '''' = ''produce''
   \<and> (\<forall>n i k. i < length ingredientCategories \<and> k \<in> set (snd (ingredientCategories ! i))
          \<and> sublist (toLowerCase n) (toLowerCase k)
        \<longrightarrow> (\<exists>j\<le>i. categorizeIngredient n = fst (ingredientCategories ! j)
               \<and> keywordMatch n (snd (ingredientCategories ! j))
               \<and> (\<forall>l<j. \<not> keywordMatch n (snd (ingredientCategories ! l))))
            \<and> ((\<forall>l<i. \<not> keywordMatch n (snd (ingredientCategories ! l)))
                 \<longrightarrow> categorizeIngredient n = fst (ingredientCategories ! i)))"
proof
  show "categorizeIngredient '''' = ''produce''"
    by (simp add: categorizeIngredient_def ingredientCategories_def toLowerCase_def
      itemMatches_def)
next
  show "\<forall>n i k. i < length ingredientCategories \<and> k \<in> set (snd (ingredientCategories ! i))
          \<and> sublist (toLowerCase n) (toLowerCase k)
        \<longrightarrow> (\<exists>j\<le>i. categorizeIngredient n = fst (ingredientCategories ! j)
               \<and> keywordMatch n (snd (ingredientCategories ! j))
               \<and> (\<forall>l<j. \<not> keywordMatch n (snd (ingredientCategories ! l))))
            \<and> ((\<forall>l<i. \<not> keywordMatch n (snd (ingredientCategories ! l)))
                 \<longrightarrow> categorizeIngredient n = fst (ingredientCategories ! i))"
  proof (intro allI impI)
    fix n i k
    assume a: "i < length ingredientCategories \<and> k \<in> set (snd (ingredientCategories ! i))
          \<and> sublist (toLowerCase n) (toLowerCase k)"
    then have m: "keywordMatch n (snd (ingredientCategories ! i))"
      by (auto simp: keywordMatch_def)
    from a have i: "i < length ingredientCategories" by simp
    from categorize_position[OF i m] obtain j where j: "j \<le> i"
      "categorizeIngredient n = fst (ingredientCategories ! j)"
      "keywordMatch n (snd (ingredientCategories ! j))"
      "\<forall>l<j. \<not> keywordMatch n (snd (ingredientCategories ! l))" by blast
    have first: "\<exists>j\<le>i. categorizeIngredient n = fst (ingredientCategories ! j)
               \<and> keywordMatch n (snd (ingredientCategories ! j))
               \<and> (\<forall>l<j. \<not> keywordMatch n (snd (ingredientCategories ! l)))"
      using j by blast
    have "categorizeIngredient n = fst (ingredientCategories ! i)"
      if none: "\<forall>l<i. \<not> keywordMatch n (snd (ingredientCategories ! l))"
    proof -
      have "\<not> j < i" using none j(3) by blast
      with j(1) have "j = i" by simp
      with j(2) show ?thesis by simp
    qed
    with first show "(\<exists>j\<le>i. categorizeIngredient n = fst (ingredientCategories ! j)
               \<and> keywordMatch n (snd (ingredientCategories ! j))
               \<and> (\<forall>l<j. \<not> keywordMatch n (snd (ingredientCategories ! l))))
            \<and> ((\<forall>l<i. \<not> keywordMatch n (snd (ingredientCategories ! l)))
                 \<longrightarrow> categorizeIngredient n = fst (ingredientCategories ! i))" by blast
  qed
qed

text \<open>
  The theorem at two names. \<^verbatim>\<open>pepper\<close> is a pantry keyword (position 3) and a substring of
  the produce keyword \<^verbatim>\<open>bell pepper\<close> (position 0); the result is \<^verbatim>\<open>produce\<close>. \<^verbatim>\<open>salt\<close> is a
  pantry keyword and matches no category before; the result is \<^verbatim>\<open>pantry\<close>.
\<close>

theorem categorize_empty_and_priority_witness:
  "categorizeIngredient ''pepper'' = ''produce''
   \<and> ''pepper'' \<in> set (snd (ingredientCategories ! 3))
   \<and> categorizeIngredient ''salt'' = ''pantry''"
proof -
  have b: "toLowerCase ''bell pepper'' = ''bell pepper''"
    by (simp add: toLowerCase_def toLowerChar_def)
  have s: "sublist (toLowerCase ''pepper'') (toLowerCase ''bell pepper'')"
    unfolding lower_pepper b by (simp add: includes_sublist[symmetric])
  have p: "(0::nat) < length ingredientCategories
      \<and> ''bell pepper'' \<in> set (snd (ingredientCategories ! 0))
      \<and> sublist (toLowerCase ''pepper'') (toLowerCase ''bell pepper'')"
    using s by (simp add: ingredientCategories_def)
  have "\<forall>l<(0::nat). \<not> keywordMatch ''pepper'' (snd (ingredientCategories ! l))" by simp
  with p categorize_empty_and_priority
  have 1: "categorizeIngredient ''pepper'' = fst (ingredientCategories ! 0)" by blast
  have q: "(3::nat) < length ingredientCategories
      \<and> ''salt'' \<in> set (snd (ingredientCategories ! 3))
      \<and> sublist (toLowerCase ''salt'') (toLowerCase ''salt'')"
    by (simp add: ingredientCategories_def)
  with salt_no_earlier_match categorize_empty_and_priority
  have 2: "categorizeIngredient ''salt'' = fst (ingredientCategories ! 3)" by blast
  from 1 2 show ?thesis by (simp add: ingredientCategories_def)
qed


section \<open>The quantity estimator\<close>

text \<open>
  Claim C5, as the code has it. Take an ingredient name whose lower-cased form is not the
  name of an inherited property, and a multiplier \<open>m\<close> that is a positive normal binary64
  value up to \<open>2\<^sup>1\<^sup>0\<^sup>0\<^sup>0\<close>. The base entry is the table entry of the lower-cased name, or the
  default when the table has none. The amount returned is \<open>\<lceil>r\<rceil>\<close>, where \<open>r\<close> is the
  binary64 product of the base amount and \<open>m\<close>: the exact product rounded to 53 significant
  bits, so within a relative error of \<open>2\<^sup>-\<^sup>5\<^sup>3\<close> of it. The amount is a positive integer; unit
  and notes are those of the base entry. With the multiplier 2, which is what 8 servings
  of a recipe for 4 give, the product is exact and the amount is \<open>\<lceil>base \<times> 2\<rceil>\<close>.
\<close>

theorem quantity_rounded_up:
  assumes "toLowerCase n \<notin> set objectPrototypeKeys" "power_int 2 (- 1022) \<le> m" "m \<le> 2 ^ 1000"
  shows "(\<exists>r. toDouble (baseAmount n * m) = Fin r
            \<and> \<bar>r - baseAmount n * m\<bar> \<le> baseAmount n * m / 2 ^ 53
            \<and> 1 \<le> \<lceil>r\<rceil>
            \<and> calculateIngredientQuantity n (Fin m) =
                \<lparr>amount = Fin (of_int \<lceil>r\<rceil>),
                 q_unit = q_unit (baseFor n), q_notes = q_notes (baseFor n)\<rparr>)
       \<and> calculateIngredientQuantity n (Fin 2) =
            \<lparr>amount = Fin (of_int \<lceil>baseAmount n * 2\<rceil>),
             q_unit = q_unit (baseFor n), q_notes = q_notes (baseFor n)\<rparr>
       \<and> (recipe_servings recipe = 4
            \<longrightarrow> servingMultiplier \<lparr>servings = Some 8, excludeIngredients = ex\<rparr> recipe = Fin 2)"
proof (intro conjI impI)
  from baseAmount_int[of n] obtain k where k: "1 \<le> k" "k \<le> 500"
    "amount (baseFor n) = Fin (of_int k)" "baseAmount n = of_int k" by blast
  have mpos: "0 < m" using pow2_pos[of "- 1022"] assms(2) by linarith
  have k1: "(1::rat) \<le> of_int k" and k500: "(of_int k :: rat) \<le> 500" using k(1,2) by simp_all
  have "m \<le> of_int k * m" using k1 mpos by simp
  with assms(2) have "power_int 2 (- 1022) \<le> of_int k * m" by (rule order_trans)
  then have lo: "power_int 2 (- 1022) \<le> baseAmount n * m" by (simp only: k(4))
  have "of_int k * m \<le> 500 * m" using k500 mpos by simp
  also have "\<dots> \<le> 500 * 2 ^ 1000" using assms(3) by simp
  also have "\<dots> \<le> (2 ^ 1010 :: rat)" by simp
  finally have hi: "baseAmount n * m \<le> 2 ^ 1010" by (simp only: k(4))
  from toDouble_normal_range[OF lo hi] obtain r where r: "toDouble (baseAmount n * m) = Fin r"
    "\<bar>r - baseAmount n * m\<bar> \<le> baseAmount n * m / 2 ^ 53" "0 < r" by blast
  have c: "1 \<le> \<lceil>r\<rceil>" using r(3) by linarith
  have "calculateIngredientQuantity n (Fin m) =
          \<lparr>amount = Fin (of_int \<lceil>r\<rceil>),
           q_unit = q_unit (baseFor n), q_notes = q_notes (baseFor n)\<rparr>"
    using r(1) by (simp add: calculate_not_inherited[OF assms(1)] k(3) k(4)[symmetric])
  with r c show "\<exists>r. toDouble (baseAmount n * m) = Fin r
            \<and> \<bar>r - baseAmount n * m\<bar> \<le> baseAmount n * m / 2 ^ 53
            \<and> 1 \<le> \<lceil>r\<rceil>
            \<and> calculateIngredientQuantity n (Fin m) =
                \<lparr>amount = Fin (of_int \<lceil>r\<rceil>),
                 q_unit = q_unit (baseFor n), q_notes = q_notes (baseFor n)\<rparr>" by blast
  have "0 < k * 2" "k * 2 < 2 ^ 53" using k(1,2) by simp_all
  from toDouble_int[OF this] have "toDouble (of_int k * 2) = Fin (of_int k * 2)" by simp
  moreover have "\<lceil>(of_int k :: rat) * 2\<rceil> = k * 2"
    by (metis ceiling_of_int of_int_mult of_int_numeral)
  ultimately show "calculateIngredientQuantity n (Fin 2) =
            \<lparr>amount = Fin (of_int \<lceil>baseAmount n * 2\<rceil>),
             q_unit = q_unit (baseFor n), q_notes = q_notes (baseFor n)\<rparr>"
    by (simp add: calculate_not_inherited[OF assms(1)] k(3) k(4))
next
  assume "recipe_servings recipe = 4"
  then show "servingMultiplier \<lparr>servings = Some 8, excludeIngredients = ex\<rparr> recipe = Fin 2"
    by (simp add: servingMultiplier_def toDouble_2)
qed


text \<open>
  The theorem at the name \<^verbatim>\<open>Eggs\<close>, found in the table as \<^verbatim>\<open>eggs\<close> with base amount 6, and
  the multipliers \<open>5/2\<close> and 2.
\<close>

theorem quantity_rounded_up_witness:
  "calculateIngredientQuantity ''Eggs'' (Fin (5 / 2))
     = \<lparr>amount = Fin 15, q_unit = Some ''pieces'', q_notes = Some ''Large eggs''\<rparr>
   \<and> calculateIngredientQuantity ''Eggs'' (Fin 2)
     = \<lparr>amount = Fin 12, q_unit = Some ''pieces'', q_notes = Some ''Large eggs''\<rparr>"
proof -
  have a: "toLowerCase ''Eggs'' \<notin> set objectPrototypeKeys"
    by (simp add: lower_Eggs objectPrototypeKeys_def)
  have b: "power_int 2 (- 1022) \<le> (5 / 2 :: rat)"
  proof -
    have "power_int (2::rat) (- 1022) \<le> power_int 2 0"
      by (rule power_int_increasing) simp_all
    then show ?thesis by simp
  qed
  have c: "(5 / 2 :: rat) \<le> 2 ^ 1000"
  proof -
    have "(2::rat) ^ 2 \<le> 2 ^ 1000" by (rule power_increasing) simp_all
    then show ?thesis by simp
  qed
  have ba: "baseAmount ''Eggs'' = 6" by (simp add: baseAmount_def baseFor_eggs)
  from quantity_rounded_up[OF a b c]
  obtain r where r: "toDouble (baseAmount ''Eggs'' * (5 / 2)) = Fin r"
    "calculateIngredientQuantity ''Eggs'' (Fin (5 / 2)) =
       \<lparr>amount = Fin (of_int \<lceil>r\<rceil>),
        q_unit = q_unit (baseFor ''Eggs''), q_notes = q_notes (baseFor ''Eggs'')\<rparr>"
    and t: "calculateIngredientQuantity ''Eggs'' (Fin 2) =
            \<lparr>amount = Fin (of_int \<lceil>baseAmount ''Eggs'' * 2\<rceil>),
             q_unit = q_unit (baseFor ''Eggs''), q_notes = q_notes (baseFor ''Eggs'')\<rparr>"
    by blast
  have "r = 15" using r(1) by (simp add: ba toDouble_15)
  with r(2) t show ?thesis by (simp add: ba baseFor_eggs)
qed

text \<open>
  The claim as it is worded takes the product in exact arithmetic and covers every name.
  Three inputs where the code differs:
  \<^item> 5 servings of a recipe for 3: the multiplier is the binary64 value next to \<open>5/3\<close>, a
    little above it; six times this value exceeds 10, so its ceiling is 11, but the
    binary64 product is 10 and the code returns 10;
  \<^item> 11 servings of a recipe for 10: \<open>\<lceil>100 \<times> 11/10\<rceil>\<close> is 110, but the multiplier is the
    binary64 value next to \<open>11/10\<close>, the binary64 product is a little above 110, and the code
    returns 111;
  \<^item> the name \<^verbatim>\<open>constructor\<close>: the table read yields the inherited property instead of
    \<^verbatim>\<open>undefined\<close>, the default is not taken, and the result has the amount NaN and neither
    unit nor notes.
\<close>

theorem quantity_counterexample:
  "servingMultiplier \<lparr>servings = Some 5, excludeIngredients = []\<rparr>
       \<lparr>recipe_id = 3, recipe_name = ''Egg salad'', recipe_servings = 3,
        recipe_cookingTime = 15, recipe_ingredients = [''eggs'', ''salt'', ''eggs'']\<rparr>
     = Fin (7505999378950827 / 4503599627370496)
   \<and> amount (calculateIngredientQuantity ''eggs'' (Fin (7505999378950827 / 4503599627370496)))
     = Fin 10
   \<and> \<lceil>6 * (7505999378950827 / 4503599627370496 :: rat)\<rceil> = 11
   \<and> servingMultiplier \<lparr>servings = Some 11, excludeIngredients = []\<rparr>
       \<lparr>recipe_id = 7, recipe_name = ''Cake'', recipe_servings = 10,
        recipe_cookingTime = 60, recipe_ingredients = [''butter'']\<rparr>
     = Fin (2476979795053773 / 2251799813685248)
   \<and> amount (calculateIngredientQuantity ''butter'' (Fin (2476979795053773 / 2251799813685248)))
     = Fin 111
   \<and> \<lceil>100 * (11 / 10 :: rat)\<rceil> = 110
   \<and> calculateIngredientQuantity ''constructor'' (Fin 1)
     = \<lparr>amount = NaN, q_unit = None, q_notes = None\<rparr>"
proof (intro conjI)
  show "servingMultiplier \<lparr>servings = Some 5, excludeIngredients = []\<rparr>
       \<lparr>recipe_id = 3, recipe_name = ''Egg salad'', recipe_servings = 3,
        recipe_cookingTime = 15, recipe_ingredients = [''eggs'', ''salt'', ''eggs'']\<rparr>
     = Fin (7505999378950827 / 4503599627370496)"
    by (simp add: servingMultiplier_def double_5_3)
  show "amount (calculateIngredientQuantity ''eggs'' (Fin (7505999378950827 / 4503599627370496)))
     = Fin 10"
    unfolding calculateIngredientQuantity_def lower_eggs eggs_base
    by (simp only: property.case Quantity.simps js_mul.simps double_6_times Math_ceil.simps)
       simp
  show "\<lceil>6 * (7505999378950827 / 4503599627370496 :: rat)\<rceil> = 11"
    by (simp add: ceiling_eq_iff)
  show "servingMultiplier \<lparr>servings = Some 11, excludeIngredients = []\<rparr>
       \<lparr>recipe_id = 7, recipe_name = ''Cake'', recipe_servings = 10,
        recipe_cookingTime = 60, recipe_ingredients = [''butter'']\<rparr>
     = Fin (2476979795053773 / 2251799813685248)"
    by (simp add: servingMultiplier_def double_11_10)
  show "amount (calculateIngredientQuantity ''butter'' (Fin (2476979795053773 / 2251799813685248)))
     = Fin 111"
    unfolding calculateIngredientQuantity_def lower_butter butter_base
    by (simp only: property.case Quantity.simps js_mul.simps double_100_times Math_ceil.simps)
       (simp add: ceiling_eq_iff)
  show "\<lceil>100 * (11 / 10 :: rat)\<rceil> = 110" by simp
  show "calculateIngredientQuantity ''constructor'' (Fin 1)
     = \<lparr>amount = NaN, q_unit = None, q_notes = None\<rparr>"
    by (rule calculate_inherited) (simp add: lower_constructor objectPrototypeKeys_def)
qed


section \<open>The cost estimator\<close>

text \<open>
  Claim C8. The estimator is to return the sum of the table prices, 2.50 for every name
  that is not in the table. The lemmas \<open>cost_sum\<close> and \<open>cost_examples\<close> above show that it
  does (every price is a multiple of one half, so the binary64 sums and the rounding to
  two decimals are exact), except for a name whose lower-cased form is the name of an
  inherited property: there the table read yields that property, not \<^verbatim>\<open>undefined\<close>, the
  default 2.50 is not taken, \<^verbatim>\<open>+=\<close> concatenates strings, and the result is NaN. The name
  \<^verbatim>\<open>Constructor\<close> is not in the table, so its price should be 2.50; the estimator returns
  NaN for it, and so does a whole call for a recipe that lists it.
\<close>

theorem cost_of_inherited_name:
  "estimateTotalCost [(''Constructor'', v)] = NaN
   \<and> priceOf ''Constructor'' = 5 / 2
   \<and> (\<exists>g. generateGroceryList exampleModel lowerCompare [4] noOptions = Inr g
          \<and> fst ` set (ingredients g) = {''Constructor''}
          \<and> estimatedCost (summary g) = NaN)"
proof (intro conjI)
  show "estimateTotalCost [(''Constructor'', v)] = NaN"
    by (rule cost_inherited) (simp add: lower_Constructor objectPrototypeKeys_def)
  show "priceOf ''Constructor'' = 5 / 2"
    by (simp add: priceOf_def lower_Constructor averagePrices_def)
  let ?r = "\<lparr>recipe_id = 4, recipe_name = ''Builder bowl'', recipe_servings = 4,
              recipe_cookingTime = 20, recipe_ingredients = [''Constructor'']\<rparr>"
  have m: "map exampleModel [4] = map Some [?r]" by (simp add: exampleModel_def)
  have k: "\<forall>r \<in> set [?r]. \<forall>i \<in> set (kept noOptions r). i \<notin> set objectPrototypeKeys"
    by (auto simp: kept_def keptOf_def noOptions_def objectPrototypeKeys_def)
  from generate_total[OF m k] obtain g where
    g: "generateGroceryList exampleModel lowerCompare [4] noOptions = Inr g" by blast
  from generate_Inr[OF g] obtain rs where rs: "map exampleModel [4] = map Some rs"
    "agrees noOptions (contributions noOptions rs) (ingredients g)" by blast
  have "rs = [?r]" using rs(1) m by (simp add: map_eq_Cons_conv)
  then have keys: "fst ` set (ingredients g) = {''Constructor''}"
    using agrees_keys[OF rs(2)]
    by (auto simp: contributions_keys kept_def keptOf_def noOptions_def)
  then have "\<exists>k \<in> fst ` set (ingredients g). toLowerCase k \<in> set objectPrototypeKeys"
    by (simp add: lower_Constructor objectPrototypeKeys_def)
  from cost_inherited[OF this] have "estimatedCost (summary g) = NaN"
    by (simp add: generate_cost[OF g])
  with g keys show "\<exists>g. generateGroceryList exampleModel lowerCompare [4] noOptions = Inr g
          \<and> fst ` set (ingredients g) = {''Constructor''}
          \<and> estimatedCost (summary g) = NaN" by blast
qed


section \<open>The aggregated list\<close>

text \<open>
  Claim C2. In every successful result the buckets of \<^verbatim>\<open>categorizedIngredients\<close> partition
  the entries of \<^verbatim>\<open>ingredients\<close>: the keys of \<^verbatim>\<open>ingredients\<close> are pairwise different, the
  names found in all buckets together are, as a multiset, exactly these keys (none
  missing, none twice), every key occurs in exactly one bucket, and
  \<^verbatim>\<open>summary.totalIngredients\<close> is the number of different keys.
\<close>

theorem grocery_partition:
  assumes "generateGroceryList model cmp ids options = Inr g"
  shows "distinct (map fst (ingredients g))
       \<and> mset (map name (concat (map snd (categorizedIngredients g))))
           = mset (map fst (ingredients g))
       \<and> (\<forall>k \<in> set (map fst (ingredients g)).
             \<exists>!cb. cb \<in> set (categorizedIngredients g) \<and> k \<in> name ` set (snd cb))
       \<and> totalIngredients (summary g) = card (set (map fst (ingredients g)))"
proof -
  from generate_Inr[OF assms] obtain rs where
    ag: "agrees options (contributions options rs) (ingredients g)"
    and t: "totalIngredients (summary g) = length (ingredients g)" by blast
  have d: "distinct (map fst (ingredients g))" using ag by (simp add: agrees_def)
  have "card (set (map fst (ingredients g))) = length (ingredients g)"
    using distinct_card[OF d] by simp
  with d t generate_bucket_names[OF assms] generate_one_bucket[OF assms]
  show ?thesis by simp
qed


text \<open>
  The theorem at the scenario of the specification, recipes 1 and 2 without options: the
  call succeeds, and the four ingredient names are counted once each.
\<close>

theorem grocery_partition_witness:
  "\<exists>g. generateGroceryList exampleModel lowerCompare [1, 2] noOptions = Inr g
       \<and> distinct (map fst (ingredients g))
       \<and> mset (map name (concat (map snd (categorizedIngredients g))))
           = mset (map fst (ingredients g))
       \<and> totalIngredients (summary g) = card (set (map fst (ingredients g)))
       \<and> set (map fst (ingredients g)) = {''eggs'', ''cheese'', ''butter'', ''bread''}
       \<and> totalIngredients (summary g) = 4"
proof -
  let ?rs = "[\<lparr>recipe_id = 1, recipe_name = ''Omelet'', recipe_servings = 2,
              recipe_cookingTime = 10, recipe_ingredients = [''eggs'', ''cheese'', ''butter'']\<rparr>,
    \<lparr>recipe_id = 2, recipe_name = ''Toast'', recipe_servings = 1,
              recipe_cookingTime = 5, recipe_ingredients = [''bread'', ''butter'']\<rparr>]"
  have k: "\<forall>r \<in> set ?rs. \<forall>i \<in> set (kept noOptions r). i \<notin> set objectPrototypeKeys"
    by (simp add: kept_def keptOf_def noOptions_def objectPrototypeKeys_def)
  from generate_total[OF example_12 k] obtain g where
    g: "generateGroceryList exampleModel lowerCompare [1, 2] noOptions = Inr g" by blast
  from generate_Inr[OF g] obtain rs where rs: "map exampleModel [1, 2] = map Some rs"
    "agrees noOptions (contributions noOptions rs) (ingredients g)" by blast
  have "rs = ?rs" using rs(1) example_12 by (simp add: map_eq_Cons_conv)
  then have keys: "set (map fst (ingredients g)) = {''eggs'', ''cheese'', ''butter'', ''bread''}"
    using agrees_keys[OF rs(2)]
    by (auto simp: contributions_keys kept_def keptOf_def noOptions_def)
  have "card {''eggs'', ''cheese'', ''butter'', ''bread''} = 4" by simp
  with grocery_partition[OF g] g keys show ?thesis by auto
qed

text \<open>
  Claim C4. The claim takes membership in \<^verbatim>\<open>options.excludeIngredients\<close> without regard to
  case. The test of the source is \<^verbatim>\<open>excludeIngredients.includes(ingredient.toLowerCase())\<close>:
  the name is lower-cased, the elements of the exclusion list are compared as they are, so
  an element written with a capital letter excludes nothing. With the list \<^verbatim>\<open>['Butter']\<close>,
  which names butter up to case, recipe 2 (bread, butter) still gives the entry \<^verbatim>\<open>butter\<close>,
  and the entry is filed in the dairy bucket. (An element in lower case does exclude:
  lemma \<open>excluded_lowercase_omitted\<close>.)
\<close>

theorem capitalised_exclusion_ignored:
  "''Butter'' \<in> set (excludeIngredients exclCapital)
   \<and> toLowerCase ''butter'' = toLowerCase ''Butter''
   \<and> entryOf (generateGroceryList exampleModel cmp [2] exclCapital) ''butter''
       = Some \<lparr>name = ''butter'', quantity = Fin 100, unit = Some ''g'', category = ''dairy'',
               recipes = [\<lparr>recipeId = 2, recipeName = ''Toast''\<rparr>],
               notes' = Some ''Unsalted preferred''\<rparr>
   \<and> bucketNames (generateGroceryList exampleModel cmp [2] exclCapital)
       = Some [(''bread'', [''bread'']), (''dairy'', [''butter''])]"
proof -
  have lB: "toLowerCase ''Butter'' = ''butter''" by code_simp
  have p: "processRecipes exampleModel exclCapital (emptyGroceryList [2]) [2] =
     Inr \<lparr>list_recipes =
            [\<lparr>info_id = 2, info_name = ''Toast'', info_servings = 1, info_cookingTime = 5\<rparr>],
          ingredients =
            [(''bread'', \<lparr>name = ''bread'', quantity = Fin 1, unit = Some ''loaf'',
                category = ''bread'',
                recipes = [\<lparr>recipeId = 2, recipeName = ''Toast''\<rparr>],
                notes' = Some ''Whole grain or white''\<rparr>),
             (''butter'', \<lparr>name = ''butter'', quantity = Fin 100, unit = Some ''g'',
                category = ''dairy'',
                recipes = [\<lparr>recipeId = 2, recipeName = ''Toast''\<rparr>],
                notes' = Some ''Unsalted preferred''\<rparr>)],
          categorizedIngredients = [],
          summary = \<lparr>totalRecipes = 1, totalIngredients = 0, estimatedCost = Fin 0,
                      estimatedTime = Fin 5\<rparr>\<rparr>"
    by (simp add: exampleModel_def exclCapital_def emptyGroceryList_def getRecipeById_def
      addIngredient_def js_get_def js_set_def objectPrototypeKeys_def servingMultiplier_def
      q_butter q_bread cat_butter cat_bread lower_butter lower_names small_doubles
      toDouble_5 Let_def)
  show ?thesis
    unfolding generateGroceryList_def p
    by (simp add: lB lower_butter exclCapital_def entryOf_def bucketNames_def Object_entries_def
      Object_keys_def isArrayIndex_def isDigit_def addToCategory_def js_get_def js_set_def
      objectPrototypeKeys_def Array_sort_def Let_def)
qed


text \<open>
  Claim C1, as the code has it. Let a call succeed on identifiers that resolve to the
  recipes \<open>rs\<close>, and let \<open>e\<close> be the entry under the name \<open>k\<close>. Then the quantity of \<open>e\<close> is
  the quantity computed for the first recipe of \<open>rs\<close> that lists \<open>k\<close> (among its ingredients
  that are not excluded): later recipes change nothing, nothing is summed. Every recipe
  that lists \<open>k\<close> is among the contributing recipes of \<open>e\<close>, and the length of that list is
  the number of listings of \<open>k\<close> in all recipes together: it is 2 for two recipes that
  list \<open>k\<close> once each, and larger when a recipe lists \<open>k\<close> more than once.
\<close>

theorem first_recipe_fixes_quantity:
  assumes "generateGroceryList model cmp ids options = Inr g" "map model ids = map Some rs"
    and "map_of (ingredients g) k = Some e"
  shows "(\<exists>pre r post. rs = pre @ r # post \<and> k \<in> set (kept options r)
            \<and> (\<forall>p \<in> set pre. k \<notin> set (kept options p))
            \<and> quantity e = amount (calculateIngredientQuantity k (servingMultiplier options r)))
       \<and> (\<forall>r \<in> set rs. k \<in> set (kept options r) \<longrightarrow> refOf r \<in> set (recipes e))
       \<and> length (recipes e) = sum_list (map (\<lambda>r. count_list (kept options r) k) rs)"
proof -
  note e = generate_entry[OF assms]
  from first_listing[OF e(1)] obtain pre r post where p: "rs = pre @ r # post"
    "k \<in> set (kept options r)" "\<forall>p \<in> set pre. k \<notin> set (kept options p)"
    "hd (listings k (contributions options rs)) = r" by blast
  have "quantity e = amount (calculateIngredientQuantity k (servingMultiplier options r))"
    using p(4) by (simp add: e(2) entryFor_def Let_def)
  with p have 1: "\<exists>pre r post. rs = pre @ r # post \<and> k \<in> set (kept options r)
            \<and> (\<forall>p \<in> set pre. k \<notin> set (kept options p))
            \<and> quantity e = amount (calculateIngredientQuantity k (servingMultiplier options r))"
    by blast
  have r: "recipes e = concat (map (\<lambda>r. replicate (count_list (kept options r) k) (refOf r)) rs)"
    by (simp only: e(2) recipes_entryFor)
  have 2: "\<forall>r \<in> set rs. k \<in> set (kept options r) \<longrightarrow> refOf r \<in> set (recipes e)"
  proof (intro ballI impI)
    fix x assume x: "x \<in> set rs" "k \<in> set (kept options x)"
    from count_list_pos[OF x(2)] have "refOf x \<in> set (replicate (count_list (kept options x) k) (refOf x))"
      by simp
    with x(1) show "refOf x \<in> set (recipes e)" unfolding r by auto
  qed
  have 3: "length (recipes e) = sum_list (map (\<lambda>r. count_list (kept options r) k) rs)"
    unfolding r by (rule length_concat_replicate)
  from 1 2 3 show ?thesis by blast
qed

text \<open>
  The theorem at recipes 1 and 2, requested for 4 servings: \<^verbatim>\<open>butter\<close> comes with 200 g, the
  amount computed for the omelet (2 servings, doubled); the toast alone would give 400 g.
\<close>

theorem first_recipe_fixes_quantity_witness:
  "\<exists>g e. generateGroceryList exampleModel lowerCompare [1, 2] servings4 = Inr g
         \<and> map_of (ingredients g) ''butter'' = Some e
         \<and> quantity e = Fin 200 \<and> length (recipes e) = 2
         \<and> amount (calculateIngredientQuantity ''butter''
              (servingMultiplier servings4
                 \<lparr>recipe_id = 2, recipe_name = ''Toast'', recipe_servings = 1,
                  recipe_cookingTime = 5, recipe_ingredients = [''bread'', ''butter'']\<rparr>))
            = Fin 400"
proof -
  let ?omelet = "\<lparr>recipe_id = 1, recipe_name = ''Omelet'', recipe_servings = 2,
              recipe_cookingTime = 10, recipe_ingredients = [''eggs'', ''cheese'', ''butter'']\<rparr>"
  let ?toast = "\<lparr>recipe_id = 2, recipe_name = ''Toast'', recipe_servings = 1,
              recipe_cookingTime = 5, recipe_ingredients = [''bread'', ''butter'']\<rparr>"
  have k: "\<forall>r \<in> set [?omelet, ?toast]. \<forall>i \<in> set (kept servings4 r). i \<notin> set objectPrototypeKeys"
    by (auto simp: kept_def keptOf_def servings4_def objectPrototypeKeys_def)
  from generate_total[OF example_12 k] obtain g where
    g: "generateGroceryList exampleModel lowerCompare [1, 2] servings4 = Inr g" by blast
  have "entryOf (generateGroceryList exampleModel lowerCompare [1, 2] servings4) ''butter'' \<noteq> None"
    unfolding generate_entryOf[OF example_12 k] by (simp add: kept_def keptOf_def servings4_def)
  then obtain e where e: "map_of (ingredients g) ''butter'' = Some e"
    by (auto simp: entryOf_def g)
  have mo: "servingMultiplier servings4 ?omelet = Fin 2"
    by (simp add: servingMultiplier_def servings4_def toDouble_2)
  have mt: "servingMultiplier servings4 ?toast = Fin 4"
    by (simp add: servingMultiplier_def servings4_def toDouble_4)
  from first_recipe_fixes_quantity[OF g example_12 e]
  obtain pre r post where p: "[?omelet, ?toast] = pre @ r # post"
    "\<forall>p \<in> set pre. ''butter'' \<notin> set (kept servings4 p)"
    "quantity e = amount (calculateIngredientQuantity ''butter'' (servingMultiplier servings4 r))"
    and l: "length (recipes e)
       = sum_list (map (\<lambda>r. count_list (kept servings4 r) ''butter'') [?omelet, ?toast])"
    by blast
  have "pre = []"
  proof (cases pre)
    case Nil
    then show ?thesis .
  next
    case (Cons a as)
    with p(1) have "a = ?omelet" by simp
    with Cons p(2) show ?thesis by (simp add: kept_def keptOf_def servings4_def)
  qed
  with p(1) have "r = ?omelet" by simp
  with p(3) have q: "quantity e = Fin 200" by (simp only: mo butter_times_2)
  have "length (recipes e) = 2" using l by (simp add: kept_def keptOf_def servings4_def)
  moreover have "amount (calculateIngredientQuantity ''butter'' (servingMultiplier servings4 ?toast))
      = Fin 400" by (simp only: mt butter_times_4)
  ultimately show ?thesis using g e q by blast
qed

text \<open>
  The claim as it is worded gives length 2 for any two recipes that share an ingredient.
  Recipe 3 lists \<^verbatim>\<open>eggs\<close> twice and recipe 1 once: the list has three elements.
\<close>

theorem shared_ingredient_length_counterexample:
  "map_option (length \<circ> recipes)
     (entryOf (generateGroceryList exampleModel lowerCompare [3, 1] noOptions) ''eggs'') = Some 3"
proof -
  let ?rs = "[\<lparr>recipe_id = 3, recipe_name = ''Egg salad'', recipe_servings = 3,
              recipe_cookingTime = 15, recipe_ingredients = [''eggs'', ''salt'', ''eggs'']\<rparr>,
    \<lparr>recipe_id = 1, recipe_name = ''Omelet'', recipe_servings = 2,
              recipe_cookingTime = 10, recipe_ingredients = [''eggs'', ''cheese'', ''butter'']\<rparr>]"
  have k: "\<forall>r \<in> set ?rs. \<forall>i \<in> set (kept noOptions r). i \<notin> set objectPrototypeKeys"
    by (auto simp: kept_def keptOf_def noOptions_def objectPrototypeKeys_def)
  show ?thesis
    unfolding generate_entryOf[OF example_31 k]
    by (simp add: recipes_entryFor kept_def keptOf_def noOptions_def)
qed

text \<open>
  Claim C3, as the code has it. In a successful result the contributing recipes of the
  entry under \<open>k\<close> are, in processing order, one reference for every listing of \<open>k\<close> by
  a processed recipe. When no recipe lists an ingredient twice this is the sequence of the
  processed recipes that list \<open>k\<close>, each once; it is free of duplicates when, moreover, the
  processed recipes have pairwise different references.
\<close>

theorem contributing_recipes_sequence:
  assumes "generateGroceryList model cmp ids options = Inr g" "map model ids = map Some rs"
    and "map_of (ingredients g) k = Some e"
  shows "recipes e = concat (map (\<lambda>r. replicate (count_list (kept options r) k) (refOf r)) rs)
       \<and> ((\<forall>r \<in> set rs. distinct (kept options r))
            \<longrightarrow> recipes e = map refOf (filter (\<lambda>r. k \<in> set (kept options r)) rs))
       \<and> ((\<forall>r \<in> set rs. distinct (kept options r)) \<and> distinct (map refOf rs)
            \<longrightarrow> distinct (recipes e))"
proof -
  note e = generate_entry[OF assms]
  have r: "recipes e = concat (map (\<lambda>r. replicate (count_list (kept options r) k) (refOf r)) rs)"
    by (simp only: e(2) recipes_entryFor)
  have f: "concat (map (\<lambda>r. replicate (count_list (kept options r) k) (refOf r)) xs)
           = map refOf (filter (\<lambda>r. k \<in> set (kept options r)) xs)"
    if "\<forall>r \<in> set xs. distinct (kept options r)" for xs
    using that by (induction xs) (auto simp: count_list_distinct)
  have d: "distinct (map refOf (filter (\<lambda>r. k \<in> set (kept options r)) rs))"
    if "distinct (map refOf rs)"
    using that by (simp add: distinct_map_filter)
  from r f[of rs] d show ?thesis by auto
qed

text \<open>The theorem at recipes 1 and 2 and the name \<^verbatim>\<open>butter\<close>.\<close>

theorem contributing_recipes_sequence_witness:
  "\<exists>g e. generateGroceryList exampleModel lowerCompare [1, 2] noOptions = Inr g
         \<and> map_of (ingredients g) ''butter'' = Some e
         \<and> recipes e = [\<lparr>recipeId = 1, recipeName = ''Omelet''\<rparr>,
                         \<lparr>recipeId = 2, recipeName = ''Toast''\<rparr>]
         \<and> distinct (recipes e)"
proof -
  let ?omelet = "\<lparr>recipe_id = 1, recipe_name = ''Omelet'', recipe_servings = 2,
              recipe_cookingTime = 10, recipe_ingredients = [''eggs'', ''cheese'', ''butter'']\<rparr>"
  let ?toast = "\<lparr>recipe_id = 2, recipe_name = ''Toast'', recipe_servings = 1,
              recipe_cookingTime = 5, recipe_ingredients = [''bread'', ''butter'']\<rparr>"
  have k: "\<forall>r \<in> set [?omelet, ?toast]. \<forall>i \<in> set (kept noOptions r). i \<notin> set objectPrototypeKeys"
    by (auto simp: kept_def keptOf_def noOptions_def objectPrototypeKeys_def)
  from generate_total[OF example_12 k] obtain g where
    g: "generateGroceryList exampleModel lowerCompare [1, 2] noOptions = Inr g" by blast
  have "entryOf (generateGroceryList exampleModel lowerCompare [1, 2] noOptions) ''butter'' \<noteq> None"
    unfolding generate_entryOf[OF example_12 k] by (simp add: kept_def keptOf_def noOptions_def)
  then obtain e where e: "map_of (ingredients g) ''butter'' = Some e"
    by (auto simp: entryOf_def g)
  from contributing_recipes_sequence[OF g example_12 e]
  have "recipes e = concat (map (\<lambda>r. replicate (count_list (kept noOptions r) ''butter'') (refOf r))
          [?omelet, ?toast])" by blast
  then have "recipes e = [\<lparr>recipeId = 1, recipeName = ''Omelet''\<rparr>,
                         \<lparr>recipeId = 2, recipeName = ''Toast''\<rparr>]"
    by (simp add: kept_def keptOf_def noOptions_def refOf_def)
  with g e show ?thesis by simp
qed

text \<open>
  Nothing removes duplicates: asked for recipe 1 twice, the call puts the reference to
  recipe 1 twice into the entry of \<^verbatim>\<open>eggs\<close>.
\<close>

theorem contributing_recipes_duplicate_counterexample:
  "map_option (distinct \<circ> recipes)
     (entryOf (generateGroceryList exampleModel lowerCompare [1, 1] noOptions) ''eggs'')
     = Some False"
proof -
  let ?rs = "[\<lparr>recipe_id = 1, recipe_name = ''Omelet'', recipe_servings = 2,
              recipe_cookingTime = 10, recipe_ingredients = [''eggs'', ''cheese'', ''butter'']\<rparr>,
    \<lparr>recipe_id = 1, recipe_name = ''Omelet'', recipe_servings = 2,
              recipe_cookingTime = 10, recipe_ingredients = [''eggs'', ''cheese'', ''butter'']\<rparr>]"
  have k: "\<forall>r \<in> set ?rs. \<forall>i \<in> set (kept noOptions r). i \<notin> set objectPrototypeKeys"
    by (auto simp: kept_def keptOf_def noOptions_def objectPrototypeKeys_def)
  show ?thesis
    unfolding generate_entryOf[OF example_11 k]
    by (simp add: recipes_entryFor kept_def keptOf_def noOptions_def)
qed

text \<open>
  Claim C7. The claim promises \<open>RecipeNotFound\<close> whenever an identifier does not resolve.
  Identifier 6 does not resolve, yet the call on the identifiers 5, 6 ends with a
  \<open>TypeError\<close>: recipe 5 lists the name \<^verbatim>\<open>toString\<close>, the read
  \<^verbatim>\<open>groceryList.ingredients['toString']\<close> gives the function inherited from
  \<^verbatim>\<open>Object.prototype\<close>, so no entry is made and \<^verbatim>\<open>.recipes.push\<close> fails before the lookup of 6
  is reached. (No list is returned in any case, lemma \<open>unresolved_recipe_no_list\<close>, and the
  exception is \<open>RecipeNotFound\<close> when no recipe before the identifier lists an inherited
  property name, lemma \<open>unresolved_recipe_not_found\<close>.)
\<close>

theorem unresolved_recipe_type_error:
  "exampleModel 6 = None
   \<and> generateGroceryList exampleModel cmp [5, 6] noOptions = Inl TypeError"
  by (simp add: generateGroceryList_def exampleModel_def noOptions_def emptyGroceryList_def
      getRecipeById_def addIngredient_def js_get_def js_set_def objectPrototypeKeys_def
      toLowerCase_def toLowerChar_def Let_def)


text \<open>
  Claim C9, as the code has it. The source sorts every bucket with the comparator
  \<^verbatim>\<open>(a, b) => a.name.localeCompare(b.name)\<close>. Let \<open>cmp\<close> be that comparator, a consistent one
  as the language standard demands of \<^verbatim>\<open>localeCompare\<close>: \<open>cmp a b\<close> is negative exactly when
  \<open>cmp b a\<close> is positive, and \<open>\<le> 0\<close> is transitive. Then in a successful result every bucket
  holds exactly the entries of its category, and it is sorted in the order of \<open>cmp\<close>:
  \<open>cmp (name a) (name b) \<le> 0\<close> for every entry \<open>a\<close> that stands before an entry \<open>b\<close>.
\<close>

theorem buckets_sorted:
  assumes "generateGroceryList model cmp ids options = Inr g"
    and "\<forall>a b. (cmp a b < 0) = (0 < cmp b a)"
    and "\<forall>a b c. cmp a b \<le> 0 \<and> cmp b c \<le> 0 \<longrightarrow> cmp a c \<le> 0"
    and "cb \<in> set (categorizedIngredients g)"
  shows "sorted_wrt (\<lambda>a b. cmp (name a) (name b) \<le> 0) (snd cb)
       \<and> mset (snd cb) = mset (filter (\<lambda>e. category e = fst cb) (map snd (ingredients g)))"
proof -
  from generate_Inr[OF assms(1)] obtain cats where
    c: "categorizedIngredients g = map (\<lambda>(c, b). (c, Array_sort cmp b)) cats" by blast
  with assms(4) obtain c b where "cb = (c, Array_sort cmp b)" by auto
  then have "sorted_wrt (\<lambda>a b. cmp (name a) (name b) \<le> 0) (snd cb)"
    using sorted_wrt_Array_sort[OF assms(2,3)] by simp
  with generate_bucket_contents[OF assms(1,4)] show ?thesis by simp
qed

text \<open>
  The theorem at the recipe with two kinds of eggs and the comparator \<open>collationCompare\<close>,
  which is consistent: the one bucket holds \<^verbatim>\<open>eggs - large\<close> before \<^verbatim>\<open>eggs (large)\<close>.
\<close>

theorem buckets_sorted_witness:
  "\<exists>g. generateGroceryList eggModel collationCompare [1] noOptions = Inr g
     \<and> map (\<lambda>cb. (fst cb, map name (snd cb))) (categorizedIngredients g)
         = [(''protein'', [''eggs - large'', ''eggs (large)''])]
     \<and> (\<forall>cb \<in> set (categorizedIngredients g).
           sorted_wrt (\<lambda>a b. collationCompare (name a) (name b) \<le> 0) (snd cb)
           \<and> mset (snd cb)
               = mset (filter (\<lambda>e. category e = fst cb) (map snd (ingredients g))))"
proof -
  note b = egg_buckets[of collationCompare, OF egg_order(1)]
  from b obtain g where
    g: "generateGroceryList eggModel collationCompare [1] noOptions = Inr g"
    by (cases "generateGroceryList eggModel collationCompare [1] noOptions")
       (auto simp: bucketNames_def)
  have n: "map (\<lambda>cb. (fst cb, map name (snd cb))) (categorizedIngredients g)
         = [(''protein'', [''eggs - large'', ''eggs (large)''])]"
    using b by (simp add: bucketNames_def g case_prod_unfold)
  have "\<forall>cb \<in> set (categorizedIngredients g).
           sorted_wrt (\<lambda>a b. collationCompare (name a) (name b) \<le> 0) (snd cb)
           \<and> mset (snd cb)
               = mset (filter (\<lambda>e. category e = fst cb) (map snd (ingredients g)))"
    using buckets_sorted[OF g collationCompare_consistent] by blast
  with g n show ?thesis by (intro exI[of _ g] conjI)
qed

text \<open>
  The claim as it is worded asks for the lexical order of the names without regard to
  case. Under a comparator that puts \<^verbatim>\<open>eggs - large\<close> before \<^verbatim>\<open>eggs (large)\<close>, as the collation
  of the host does, the bucket of the two kinds of eggs is not in that order: the
  lower-cased names do not ascend.
\<close>

theorem bucket_order_counterexample:
  "bucketNames (generateGroceryList eggModel collationCompare [1] noOptions)
     = Some [(''protein'', [''eggs - large'', ''eggs (large)''])]
   \<and> \<not> sorted (map toLowerCase [''eggs - large'', ''eggs (large)''])"
  using egg_buckets[of collationCompare, OF egg_order(1)] egg_order(2,3) by (simp add: egg_names)


end
